theory Spec2Isabelle
  imports Main "HOL-Library.Sublist" "HOL-Library.AList"
begin

section \<open>GraphQL documents as seen by auth-notifications.ts\<close>

text \<open>
  The value nodes of the GraphQL AST. Of the node kinds that carry a \<open>value\<close> property,
  only \<open>StringValue\<close> and \<open>EnumValue\<close> can hold the text \<open>off\<close>: the lexemes of
  \<open>IntValue\<close> and \<open>FloatValue\<close> are numeric and the one of \<open>BooleanValue\<close> is a boolean.
  Only \<open>ObjectValue\<close> has \<open>fields\<close>.
\<close>

datatype gvalue =
    Variable string
  | IntValue int
  | FloatValue string
  | StringValue string
  | BooleanValue bool
  | NullValue
  | EnumValue string
  | ListValue "gvalue list"
  | ObjectValue "(string \<times> gvalue) list"

record argument =
  arg_name :: string
  arg_value :: gvalue

record directive =
  dir_name :: string
  dir_arguments :: "argument list"

datatype gtype = NamedType string | ListType gtype | NonNullType gtype

record field_definition =
  field_name :: string
  field_type :: gtype
  field_directives :: "directive list"

text \<open>
  A definition of a document. \<open>TypeDefinition\<close> stands for the node kinds that have
  \<open>fields\<close> (object, interface and input object type definitions and extensions); all of
  them have a name and a directive list. \<open>OtherDefinition\<close> stands for the kinds without
  \<open>fields\<close> (scalar, union, enum, schema, directive, operation, fragment); the name and the
  directive list may be absent there.
\<close>

datatype definition_node =
    TypeDefinition string "directive list" "field_definition list"
  | OtherDefinition "string option" "directive list option"

type_synonym document = "definition_node list"

fun def_fields :: "definition_node \<Rightarrow> field_definition list" where
  "def_fields (TypeDefinition n ds fs) = fs"
| "def_fields (OtherDefinition n ds) = []"

fun def_directives :: "definition_node \<Rightarrow> directive list" where
  "def_directives (TypeDefinition n ds fs) = ds"
| "def_directives (OtherDefinition n None) = []"
| "def_directives (OtherDefinition n (Some ds)) = ds"

subsection \<open>hasFieldAuthDirectives\<close>

definition nonNullable :: "field_definition \<Rightarrow> bool" where
  "nonNullable field = (case field_type field of NonNullType t \<Rightarrow> True | _ \<Rightarrow> False)"

definition hasAuth :: "directive list \<Rightarrow> bool" where
  "hasAuth dirs = list_ex (\<lambda>dir. dir_name dir = ''auth'') dirs"

definition withAuth :: "definition_node \<Rightarrow> field_definition list" where
  "withAuth d = filter (\<lambda>field. hasAuth (field_directives field) \<and> nonNullable field) (def_fields d)"

text \<open>The body of the \<open>forEach\<close>: \<open>def.name.value\<close> is read only when a field qualified.\<close>

fun fieldAuthStep :: "string set \<Rightarrow> definition_node \<Rightarrow> string set" where
  "fieldAuthStep haveFieldAuthDir (TypeDefinition n ds fs) =
     (if length (withAuth (TypeDefinition n ds fs)) > 0 then insert n haveFieldAuthDir
      else haveFieldAuthDir)"
| "fieldAuthStep haveFieldAuthDir (OtherDefinition n ds) = haveFieldAuthDir"

definition hasFieldAuthDirectives :: "document \<Rightarrow> string set" where
  "hasFieldAuthDirectives doc = foldl fieldAuthStep {} doc"

subsection \<open>hasV2AuthDirectives\<close>

definition hasV2AuthDirectives :: "int \<Rightarrow> document \<Rightarrow> bool" where
  "hasV2AuthDirectives transformerversion doc =
     (let usesTransformerV2 = (transformerversion = 2);
          containsAuthDir =
            foldl (\<lambda>acc d. if hasAuth (def_directives d) then True else acc) False doc
      in containsAuthDir \<and> usesTransformerV2)"

subsection \<open>displayAuthNotification\<close>

text \<open>\<open>value.value === 'off' || value.kind === 'NullValue'\<close> for the value of an object field.\<close>

fun offOrNull :: "gvalue \<Rightarrow> bool" where
  "offOrNull (StringValue s) = (s = ''off'')"
| "offOrNull (EnumValue s) = (s = ''off'')"
| "offOrNull NullValue = True"
| "offOrNull v = False"

text \<open>
  The callback given to \<open>some\<close> over the arguments of the model directive. For another
  argument name it returns \<open>undefined\<close>, which is falsy. \<open>arg.value?.fields?.some\<close> is
  \<open>undefined\<close> for every value that is not an object.
\<close>

definition subscriptionArgOff :: "argument \<Rightarrow> bool" where
  "subscriptionArgOff arg =
     (if arg_name arg = ''subscriptions'' then
        (let subscriptionNull = (arg_value arg = NullValue);
             levelFieldOffOrNull =
               (case arg_value arg of
                  ObjectValue flds \<Rightarrow>
                    list_ex (\<lambda>(name, v). name = ''level'' \<and> offOrNull v) flds
                | _ \<Rightarrow> False)
         in levelFieldOffOrNull \<or> subscriptionNull)
      else False)"

definition subscriptionOff :: "directive list \<Rightarrow> bool" where
  "subscriptionOff typeObj =
     (let modelDirective = find (\<lambda>dir. dir_name dir = ''model'') typeObj
      in list_ex subscriptionArgOff
           (case modelDirective of None \<Rightarrow> [] | Some d \<Rightarrow> dir_arguments d))"

text \<open>
  The directive map is an object from type names to directive lists: its keys in
  enumeration order, and the lookup of a key.
\<close>

type_synonym directive_map = "(string \<times> directive list) list"

definition displayAuthNotification :: "int \<Rightarrow> directive_map \<Rightarrow> string set \<Rightarrow> bool" where
  "displayAuthNotification transformerversion directiveMap fieldDirectives =
     (let usesTransformerV2 = (transformerversion = 2);
          schemaHasValues =
            list_ex (\<lambda>typeName.
                case map_of directiveMap typeName of
                  None \<Rightarrow> False
                | Some typeObj \<Rightarrow> subscriptionOff typeObj \<and> typeName \<in> fieldDirectives)
              (map fst directiveMap)
      in schemaHasValues \<and> usesTransformerV2)"


section \<open>The file system\<close>

text \<open>
  The file tree below the project root: plain files with their text, directories with
  their entries in the order \<open>readdir\<close> lists them, and \<open>Other\<close> for what \<open>lstat\<close> reports
  as neither a file nor a directory. Symbolic links are not modelled. Text is a list of
  8-bit characters; a path is the list of its components, so \<open>path.join(p, c)\<close> is
  \<open>p @ [c]\<close>.
\<close>

datatype node = File string | Dir "(string \<times> node) list" | Other

type_synonym path = "string list"

datatype error = ENOENT | ENOTDIR | EISDIR | EINVAL | ExternalError

fun lookup :: "node \<Rightarrow> path \<Rightarrow> node option" where
  "lookup n [] = Some n"
| "lookup n (c # cs) =
     (case n of
        Dir es \<Rightarrow> (case map_of es c of None \<Rightarrow> None | Some m \<Rightarrow> lookup m cs)
      | _ \<Rightarrow> None)"

definition existsSync :: "node \<Rightarrow> path \<Rightarrow> bool" where
  "existsSync fs p = (lookup fs p \<noteq> None)"

definition readdir :: "node \<Rightarrow> path \<Rightarrow> error + string list" where
  "readdir fs p =
     (case lookup fs p of
        None \<Rightarrow> Inl ENOENT
      | Some (Dir es) \<Rightarrow> Inr (map fst es)
      | Some _ \<Rightarrow> Inl ENOTDIR)"

definition readFile :: "node \<Rightarrow> path \<Rightarrow> error + string" where
  "readFile fs p =
     (case lookup fs p of
        None \<Rightarrow> Inl ENOENT
      | Some (File c) \<Rightarrow> Inr c
      | Some (Dir es) \<Rightarrow> Inl EISDIR
      | Some Other \<Rightarrow> Inl EINVAL)"

text \<open>Replace the node at a path; nothing happens when the path does not exist.\<close>

fun modify_at :: "(node \<Rightarrow> node) \<Rightarrow> node \<Rightarrow> path \<Rightarrow> node" where
  "modify_at f n [] = f n"
| "modify_at f n (c # cs) =
     (case n of
        Dir es \<Rightarrow> Dir (AList.map_entry c (\<lambda>m. modify_at f m cs) es)
      | _ \<Rightarrow> n)"

text \<open>
  \<open>fs.appendFile(path, data)\<close>. Both call sites pass a path that was just seen to exist, so
  the creation of a missing file is not modelled; appending to a directory fails and leaves
  the tree as it is.
\<close>

definition appendFile :: "node \<Rightarrow> path \<Rightarrow> string \<Rightarrow> node" where
  "appendFile fs p txt = modify_at (\<lambda>n. case n of File c \<Rightarrow> File (c @ txt) | _ \<Rightarrow> n) fs p"

text \<open>\<open>String.prototype.indexOf\<close> for a single character, \<open>-1\<close> when it does not occur.\<close>

fun indexOf :: "string \<Rightarrow> char \<Rightarrow> int" where
  "indexOf [] c = -1"
| "indexOf (x # xs) c =
     (if x = c then 0 else (let r = indexOf xs c in if r = -1 then -1 else r + 1))"

subsection \<open>loadResolvers\<close>

text \<open>
  \<open>resolvers[resolverFile] = content\<close> on the plain object \<open>resolvers\<close>, for a string
  \<open>content\<close>. The object keeps its keys in insertion order, and assigning to a key that is
  already there keeps its place. The key \<open>__proto__\<close> is the accessor that a plain object
  inherits from \<open>Object.prototype\<close>: its setter ignores a value that is not an object, so
  the assignment of a string makes no entry. (Keys that are array indices come first in
  \<open>Object.entries\<close>; they do not start with \<open>Query.list\<close>, so that the order of the
  entries the policy keeps is the insertion order.)
\<close>

definition assignProperty ::
  "string \<Rightarrow> string \<Rightarrow> (string \<times> string) list \<Rightarrow> (string \<times> string) list" where
  "assignProperty key v obj = (if key = ''__proto__'' then obj else AList.update key v obj)"

fun loadResolversLoop ::
  "node \<Rightarrow> path \<Rightarrow> string list \<Rightarrow> (string \<times> string) list \<Rightarrow> error + (string \<times> string) list" where
  "loadResolversLoop fs resolverDirectory [] resolvers = Inr resolvers"
| "loadResolversLoop fs resolverDirectory (resolverFile # resolverFiles) resolvers =
     (if indexOf resolverFile CHR ''.'' = 0
      then loadResolversLoop fs resolverDirectory resolverFiles resolvers
      else
        (let resolverFilePath = resolverDirectory @ [resolverFile]
         in case readFile fs resolverFilePath of
              Inl e \<Rightarrow> Inl e
            | Inr content \<Rightarrow>
                loadResolversLoop fs resolverDirectory resolverFiles
                  (assignProperty resolverFile content resolvers)))"

definition loadResolvers :: "node \<Rightarrow> path \<Rightarrow> error + (string \<times> string) list" where
  "loadResolvers fs apiResourceDirectory =
     (let resolverDirectory = apiResourceDirectory @ [''build'', ''resolvers''];
          resolverDirExists = existsSync fs resolverDirectory
      in if resolverDirExists then
           (case readdir fs resolverDirectory of
              Inl e \<Rightarrow> Inl e
            | Inr resolverFiles \<Rightarrow> loadResolversLoop fs resolverDirectory resolverFiles [])
         else Inr [])"

subsection \<open>modifyGraphQLSchema\<close>

text \<open>
  The loop of \<open>modifyGraphQLSchemaDirectory\<close> over the entries of a directory: the names
  \<open>readdir\<close> returned, each with the node \<open>lstat\<close> sees at its full path. For a directory
  the function calls itself on that path, that is on the entries of the subdirectory. The
  tree is threaded through; the only write is the \<open>appendFile\<close> before \<open>return true\<close>.
\<close>

function schemaDirectoryLoop :: "node \<Rightarrow> path \<Rightarrow> (string \<times> node) list \<Rightarrow> bool \<times> node" where
  "schemaDirectoryLoop fs schemaDirectoryPath [] = (False, fs)"
| "schemaDirectoryLoop fs schemaDirectoryPath ((fileName, stats) # files) =
     (let isHidden = (indexOf fileName CHR ''.'' = 0)
      in if isHidden then schemaDirectoryLoop fs schemaDirectoryPath files
         else
           (let fullPath = schemaDirectoryPath @ [fileName]
            in case stats of
                 Dir sub \<Rightarrow>
                   (case schemaDirectoryLoop fs fullPath sub of
                      (True, fs') \<Rightarrow> (True, fs')
                    | (False, fs') \<Rightarrow> schemaDirectoryLoop fs' schemaDirectoryPath files)
               | File c \<Rightarrow> (True, appendFile fs fullPath '' '')
               | Other \<Rightarrow> schemaDirectoryLoop fs schemaDirectoryPath files))"
  by pat_completeness auto
termination
  by (relation "measure (\<lambda>(fs, p, es). size_list (size_prod (\<lambda>_. 0) size) es)") auto

definition modifyGraphQLSchemaDirectory :: "node \<Rightarrow> path \<Rightarrow> error + bool \<times> node" where
  "modifyGraphQLSchemaDirectory fs schemaDirectoryPath =
     (case lookup fs schemaDirectoryPath of
        None \<Rightarrow> Inl ENOENT
      | Some (Dir files) \<Rightarrow> Inr (schemaDirectoryLoop fs schemaDirectoryPath files)
      | Some _ \<Rightarrow> Inl ENOTDIR)"

definition modifyGraphQLSchema :: "node \<Rightarrow> path \<Rightarrow> error + node" where
  "modifyGraphQLSchema fs apiResourceDir =
     (let schemaFilePath = apiResourceDir @ [''schema.graphql''];
          schemaDirectoryPath = apiResourceDir @ [''schema''];
          schemaFileExists = existsSync fs schemaFilePath;
          schemaDirectoryExists = existsSync fs schemaDirectoryPath
      in if schemaFileExists then Inr (appendFile fs schemaFilePath '' '')
         else if schemaDirectoryExists then
           (case modifyGraphQLSchemaDirectory fs schemaDirectoryPath of
              Inl e \<Rightarrow> Inl e
            | Inr (b, fs') \<Rightarrow> Inr fs')
         else Inr fs)"


section \<open>The list-query pattern\<close>

text \<open>
  The regular expression of \<open>notifyListQuerySecurityChange\<close> is the literal text of the
  filter-expression assignment, then \<open>\s*\<close>, then a negative lookahead for \<open>\s*\<close> and the
  literal text of the guard. \<open>\s\<close> is the white space of JavaScript among the characters
  below 256.
\<close>

definition filterAssignment :: string where
  "filterAssignment =
     ''#set( $filterExpression = $util.parseJson($util.transform.toDynamoDBFilterExpression($filter)) )''"

definition filterGuard :: string where
  "filterGuard = ''#if( $util.isNullOrEmpty($filterExpression) )''"

definition isSpace :: "char \<Rightarrow> bool" where
  "isSpace c = ((of_char c :: nat) \<in> {9, 10, 11, 12, 13, 32, 160})"

text \<open>The lookahead body \<open>\s*#if...\<close> at the start of a text: any number of the leading blanks.\<close>

definition guardAhead :: "string \<Rightarrow> bool" where
  "guardAhead t =
     list_ex (\<lambda>j. prefix filterGuard (drop j t)) [0..<Suc (length (takeWhile isSpace t))]"

text \<open>
  A match of the whole pattern at the start of a text, with its length: \<open>\s*\<close> is greedy and
  gives blanks back one at a time while the negative lookahead fails.
\<close>

definition matchHere :: "string \<Rightarrow> nat option" where
  "matchHere s =
     (if prefix filterAssignment s then
        (let rest = drop (length filterAssignment) s;
             w = length (takeWhile isSpace rest)
         in map_option (\<lambda>k. length filterAssignment + k)
              (find (\<lambda>k. \<not> guardAhead (drop k rest)) (rev [0..<Suc w])))
      else None)"

text \<open>The first match at or after index \<open>i\<close>, where \<open>s\<close> is the text from \<open>i\<close> on: the end index.\<close>

fun execFrom :: "string \<Rightarrow> nat \<Rightarrow> nat option" where
  "execFrom [] i = (case matchHere [] of Some len \<Rightarrow> Some (i + len) | None \<Rightarrow> None)"
| "execFrom (c # t) i =
     (case matchHere (c # t) of Some len \<Rightarrow> Some (i + len) | None \<Rightarrow> execFrom t (Suc i))"

text \<open>
  \<open>RegExp.prototype.test\<close> of a pattern with the \<open>g\<close> flag: the search starts at
  \<open>lastIndex\<close>, a match stores its end there, a failure stores 0.
\<close>

definition regexTest :: "nat \<Rightarrow> string \<Rightarrow> bool \<times> nat" where
  "regexTest lastIndex s =
     (if lastIndex > length s then (False, 0)
      else (case execFrom (drop lastIndex s) lastIndex of
              Some e \<Rightarrow> (True, e)
            | None \<Rightarrow> (False, 0)))"

text \<open>\<open>resolversToCheck.filter(resolver => listQueryPattern.test(resolver))\<close>.\<close>

fun filterTest :: "nat \<Rightarrow> string list \<Rightarrow> string list" where
  "filterTest lastIndex [] = []"
| "filterTest lastIndex (resolver # resolvers) =
     (case regexTest lastIndex resolver of
        (True, lastIndex') \<Rightarrow> resolver # filterTest lastIndex' resolvers
      | (False, lastIndex') \<Rightarrow> filterTest lastIndex' resolvers)"

definition resolversToCheck :: "(string \<times> string) list \<Rightarrow> string list" where
  "resolversToCheck resolvers =
     map snd (filter (\<lambda>(resolverFileName, code).
                 prefix ''Query.list'' resolverFileName \<and> suffix ''.req.vtl'' resolverFileName)
              resolvers)"

text \<open>The pattern object is created by each call of the policy, so \<open>lastIndex\<close> starts at 0.\<close>

definition resolversToSecure :: "(string \<times> string) list \<Rightarrow> string list" where
  "resolversToSecure resolvers = filterTest 0 (resolversToCheck resolvers)"

section \<open>Project state and collaborators\<close>

record meta =
  m_api :: "(string \<times> string) list"
  m_auth :: bool

text \<open>
  The state the policies read and write. \<open>w_cliJSON\<close> is the project's cli.json:
  \<open>None\<close> when the file is absent, else its \<open>features.graphqltransformer\<close> section
  (\<open>ensureFeatureFlag\<close> has asserted that the feature exists before the section is
  written). \<open>w_flagValues\<close> and
  \<open>w_transformerversion\<close> are the values the process-wide FeatureFlags object holds.
  \<open>w_prompts\<close> counts the questions asked, \<open>w_emitted\<close> the telemetry success events and
  \<open>w_touches\<close> the calls of \<open>modifyGraphQLSchema\<close>.
\<close>

record world =
  w_fs :: node
  w_meta :: "meta option"
  w_cliJSON :: "(string \<rightharpoonup> bool) option"
  w_flagValues :: "string \<Rightarrow> bool"
  w_transformerversion :: int
  w_prompts :: nat
  w_emitted :: nat
  w_touches :: nat

text \<open>
  The collaborators defined outside the file verified here, taken as parameters: the
  resource directory of an api resource, the schema text of \<open>readProjectConfiguration\<close>,
  the GraphQL parser, the two directive collectors of graphql-transformer-core, the user's
  answer to the n-th question, and the default of each feature flag. The last parameter,
  \<open>pendingAppendLands\<close>, says whether an \<open>fs.appendFile\<close> that was started and not awaited
  still reaches the file when the process exits right after: the source does not fix this.
\<close>

record collaborators =
  getResourceDirectoryPath :: "string \<Rightarrow> path"
  readProjectConfiguration :: "node \<Rightarrow> path \<Rightarrow> error + string"
  parse :: "string \<Rightarrow> error + document"
  collectDirectivesByType :: "string \<Rightarrow> error + directive_map"
  collectDirectivesByTypeNames :: "string \<Rightarrow> error + (string \<times> string list) list"
  yesOrNo :: "nat \<Rightarrow> bool"
  flagDefault :: "string \<Rightarrow> bool"
  pendingAppendLands :: bool

datatype 'a outcome = Returned 'a | Exited int | Threw error

text \<open>
  Modelled from the spec: \<open>FeatureFlags.reloadValues\<close> is defined in amplify-cli-core,
  outside the file verified here. The spec has the flag store hold one persisted boolean
  per project and flag name, and has a write followed by a reload of the process-wide
  values: the reload takes each flag from cli.json, and its default where cli.json does
  not give it.
\<close>

definition reloadValues :: "collaborators \<Rightarrow> world \<Rightarrow> world" where
  "reloadValues c w =
     w\<lparr>w_flagValues :=
         (\<lambda>n. case w_cliJSON w of
                 Some section \<Rightarrow>
                   (case section n of Some b \<Rightarrow> b | None \<Rightarrow> flagDefault c n)
               | None \<Rightarrow> flagDefault c n)\<rparr>"

text \<open>
  Modelled from the spec: \<open>FeatureFlags.ensureFeatureFlag\<close> is defined in amplify-cli-core,
  outside the file verified here. The spec has it assert that the flag's feature exists;
  it changes no value and creates no cli.json.
\<close>

definition ensureFeatureFlag :: "world \<Rightarrow> string \<Rightarrow> string \<Rightarrow> world" where
  "ensureFeatureFlag w featureArea flagName = w"

text \<open>
  \<open>setNotificationFlag\<close>: \<open>getCLIJSON\<close> with \<open>throwIfNotExist: false\<close> gives no config
  when the file is absent, and then nothing is written and nothing reloaded.
\<close>

definition setNotificationFlag :: "collaborators \<Rightarrow> world \<Rightarrow> string \<Rightarrow> bool \<Rightarrow> world" where
  "setNotificationFlag c w flagName v =
     (let w1 = ensureFeatureFlag w ''graphqltransformer'' flagName
      in case w_cliJSON w1 of
           None \<Rightarrow> w1
         | Some config \<Rightarrow>
             reloadValues c (w1\<lparr>w_cliJSON := Some (config(flagName \<mapsto> v))\<rparr>))"

text \<open>
  Modelled from the spec: \<open>exitOnNextTick\<close> is defined in amplify-cli-core, outside the
  file verified here. The spec has it stop execution with the given exit code after the
  current microtask. The call therefore only schedules the exit and returns: the policy
  runs on with the statements that follow the call, up to the point where it next
  suspends (an \<open>await\<close>) or returns, and there the process ends with the scheduled code.
  The result is the scheduled exit code, which the policy carries to that point.
\<close>

definition exitOnNextTick :: "int \<Rightarrow> world \<Rightarrow> int option \<times> world" where
  "exitOnNextTick code w = (Some code, w)"

definition emitSuccess :: "world \<Rightarrow> world" where
  "emitSuccess w = w\<lparr>w_emitted := Suc (w_emitted w)\<rparr>"

definition prompt :: "collaborators \<Rightarrow> world \<Rightarrow> bool \<times> world" where
  "prompt c w = (yesOrNo c (w_prompts w), w\<lparr>w_prompts := Suc (w_prompts w)\<rparr>)"

definition appSyncApiNames :: "world \<Rightarrow> string list" where
  "appSyncApiNames w =
     map fst (filter (\<lambda>(name, service). service = ''AppSync'')
               (case w_meta w of None \<Rightarrow> [] | Some m \<Rightarrow> m_api m))"

definition containsGraphQLApi :: "collaborators \<Rightarrow> world \<Rightarrow> bool" where
  "containsGraphQLApi c w =
     (let apiNames = appSyncApiNames w;
          doesNotHaveGqlApi = (length apiNames < 1)
      in if doesNotHaveGqlApi then False
         else
           (let apiName = apiNames ! 0;
                apiResourceDir = getResourceDirectoryPath c apiName
            in if \<not> existsSync (w_fs w) apiResourceDir then False else True))"

definition getApiResourceDir :: "collaborators \<Rightarrow> world \<Rightarrow> path option" where
  "getApiResourceDir c w =
     (let hasGraphQLApi = containsGraphQLApi c w
      in if \<not> hasGraphQLApi then None
         else
           (let apiNames = appSyncApiNames w;
                apiName = apiNames ! 0;
                apiResourceDir = getResourceDirectoryPath c apiName
            in Some apiResourceDir))"


section \<open>Calling the schema touch\<close>

text \<open>
  What \<open>modifyGraphQLSchema\<close> does within the microtask of its caller, which is all that
  runs of it once an exit is scheduled: the two \<open>existsSync\<close> and, for a schema file, the
  start of the append. The walk of a schema directory begins with an awaited \<open>readdir\<close>
  and does not get to its \<open>appendFile\<close>.
\<close>

definition modifyGraphQLSchemaBeforeExit :: "collaborators \<Rightarrow> node \<Rightarrow> path \<Rightarrow> node" where
  "modifyGraphQLSchemaBeforeExit c fs apiResourceDir =
     (let schemaFilePath = apiResourceDir @ [''schema.graphql''];
          schemaFileExists = existsSync fs schemaFilePath
      in if schemaFileExists \<and> pendingAppendLands c then appendFile fs schemaFilePath '' ''
         else fs)"

text \<open>
  The call \<open>modifyGraphQLSchema(apiResourceDir)\<close> of a policy, counted in \<open>w_touches\<close>.
  With no exit scheduled the whole function takes effect, and its failure is returned
  beside the state. With an exit scheduled only its first microtask does.
\<close>

definition invokeModifyGraphQLSchema ::
  "collaborators \<Rightarrow> int option \<Rightarrow> world \<Rightarrow> path \<Rightarrow> error option \<times> world" where
  "invokeModifyGraphQLSchema c scheduled w apiResourceDir =
     (let w1 = w\<lparr>w_touches := Suc (w_touches w)\<rparr>
      in case scheduled of
           Some code \<Rightarrow>
             (None, w1\<lparr>w_fs := modifyGraphQLSchemaBeforeExit c (w_fs w1) apiResourceDir\<rparr>)
         | None \<Rightarrow>
             (case modifyGraphQLSchema (w_fs w1) apiResourceDir of
                Inl e \<Rightarrow> (Some e, w1)
              | Inr fs' \<Rightarrow> (None, w1\<lparr>w_fs := fs'\<rparr>)))"

section \<open>The three policies\<close>

text \<open>
  \<open>notifyFieldAuthSecurityChange\<close>. Nothing returns after \<open>exitOnNextTick(0)\<close>: on a
  declined question the policy goes on to call \<open>modifyGraphQLSchema\<close> as it does after a
  yes, and the process ends where the policy would await \<open>setNotificationFlag\<close>, before
  the flag is written. The call of \<open>modifyGraphQLSchema\<close> is not awaited: a failure of it
  is not seen by the policy.
\<close>

definition notifyFieldAuthSecurityChange :: "collaborators \<Rightarrow> world \<Rightarrow> bool outcome \<times> world" where
  "notifyFieldAuthSecurityChange c w =
     (let flagName = ''showfieldauthnotification'';
          dontShowNotification = (\<not> w_flagValues w flagName)
      in if dontShowNotification then (Returned False, w)
         else
           (case getApiResourceDir c w of
              None \<Rightarrow>
                (Returned False, setNotificationFlag c w flagName False)
            | Some apiResourceDir \<Rightarrow>
                (case readProjectConfiguration c (w_fs w) apiResourceDir of
                   Inl e \<Rightarrow> (Threw e, w)
                 | Inr schema \<Rightarrow>
                (case collectDirectivesByType c schema of
                   Inl e \<Rightarrow> (Threw e, w)
                 | Inr directiveMap \<Rightarrow>
                (case parse c schema of
                   Inl e \<Rightarrow> (Threw e, w)
                 | Inr doc \<Rightarrow>
                (let fieldDirectives = hasFieldAuthDirectives doc
                 in if displayAuthNotification (w_transformerversion w) directiveMap fieldDirectives
                    then
                      (case prompt c w of (continueChange, w1) \<Rightarrow>
                      (case (if \<not> continueChange then exitOnNextTick 0 (emitSuccess w1)
                             else (None, w1)) of (scheduled, w2) \<Rightarrow>
                      (case invokeModifyGraphQLSchema c scheduled w2 apiResourceDir of
                         (failure, w3) \<Rightarrow>
                      (case scheduled of
                         Some code \<Rightarrow> (Exited code, w3)
                       | None \<Rightarrow> (Returned True, setNotificationFlag c w3 flagName False)))))
                    else
                      (Returned False, setNotificationFlag c w flagName False)))))))"

text \<open>
  \<open>notifyListQuerySecurityChange\<close>: no flag is read or written. After a declined question
  the policy calls \<open>modifyGraphQLSchema\<close> all the same, and the process ends when the
  policy returns.
\<close>

definition notifyListQuerySecurityChange :: "collaborators \<Rightarrow> world \<Rightarrow> bool outcome \<times> world" where
  "notifyListQuerySecurityChange c w =
     (case getApiResourceDir c w of
        None \<Rightarrow> (Returned False, w)
      | Some apiResourceDir \<Rightarrow>
          (case readProjectConfiguration c (w_fs w) apiResourceDir of
             Inl e \<Rightarrow> (Threw e, w)
           | Inr schema \<Rightarrow>
          (case loadResolvers (w_fs w) apiResourceDir of
             Inl e \<Rightarrow> (Threw e, w)
           | Inr resolvers \<Rightarrow>
          (if length (resolversToSecure resolvers) = 0 then (Returned False, w)
           else
             (case parse c schema of
                Inl e \<Rightarrow> (Threw e, w)
              | Inr doc \<Rightarrow>
                  if hasV2AuthDirectives (w_transformerversion w) doc then
                    (case prompt c w of (continueChange, w1) \<Rightarrow>
                    (case (if \<not> continueChange then exitOnNextTick 0 (emitSuccess w1)
                           else (None, w1)) of (scheduled, w2) \<Rightarrow>
                    (case invokeModifyGraphQLSchema c scheduled w2 apiResourceDir of
                       (failure, w3) \<Rightarrow>
                    (case scheduled of
                       Some code \<Rightarrow> (Exited code, w3)
                     | None \<Rightarrow> (Returned True, w3)))))
                  else (Returned False, w))))))"

text \<open>
  \<open>notifySecurityEnhancement\<close>. Here \<open>modifyGraphQLSchema\<close> is awaited, so that its failure
  is the policy's; after a declined question it is called all the same, and the process
  ends at that \<open>await\<close>.
\<close>

definition notifyAuthWithKey :: "(string \<times> string list) list \<Rightarrow> bool" where
  "notifyAuthWithKey types =
     list_ex (\<lambda>type. case map_of types type of
                        None \<Rightarrow> False
                      | Some names \<Rightarrow> ''auth'' \<in> set names \<and> ''primaryKey'' \<in> set names)
       (map fst types)"

definition notifySecurityEnhancement :: "collaborators \<Rightarrow> world \<Rightarrow> unit outcome \<times> world" where
  "notifySecurityEnhancement c w =
     (let flagName = ''securityEnhancementNotification''
      in if w_flagValues w flagName then
           (let apiNames = appSyncApiNames w
            in if length apiNames \<noteq> 1 then
                 (Returned (), setNotificationFlag c w flagName False)
               else
                 (let apiName = apiNames ! 0;
                      apiResourceDir = getResourceDirectoryPath c apiName
                  in if \<not> existsSync (w_fs w) apiResourceDir then
                       (Returned (), setNotificationFlag c w flagName False)
                     else
                       (case readProjectConfiguration c (w_fs w) apiResourceDir of
                          Inl e \<Rightarrow> (Threw e, w)
                        | Inr schema \<Rightarrow>
                       (case collectDirectivesByTypeNames c schema of
                          Inl e \<Rightarrow> (Threw e, w)
                        | Inr types \<Rightarrow>
                       (if (case w_meta w of None \<Rightarrow> False | Some m \<Rightarrow> m_auth m)
                           \<and> notifyAuthWithKey types
                        then
                          (case prompt c w of (shouldContinue, w1) \<Rightarrow>
                          (case (if \<not> shouldContinue then exitOnNextTick 0 (emitSuccess w1)
                                 else (None, w1)) of (scheduled, w2) \<Rightarrow>
                          (case invokeModifyGraphQLSchema c scheduled w2 apiResourceDir of
                             (Some e, w3) \<Rightarrow> (Threw e, w3)
                           | (None, w3) \<Rightarrow>
                               (case scheduled of
                                  Some code \<Rightarrow> (Exited code, w3)
                                | None \<Rightarrow>
                                    (Returned (), setNotificationFlag c w3 flagName False)))))
                        else
                          (Returned (), setNotificationFlag c w flagName False))))))
         else (Returned (), w))"

section \<open>Notions used to state the properties\<close>

text \<open>A hidden entry: its name starts with a dot.\<close>

fun hidden :: "string \<Rightarrow> bool" where
  "hidden [] = False"
| "hidden (ch # r) = (ch = CHR ''.'')"

text \<open>
  The plain files below a node that a descent skipping hidden entries can reach, as paths
  relative to the node, in depth-first order: the entries of a directory in their order,
  each subdirectory before the entries after it.
\<close>

fun plainFiles :: "node \<Rightarrow> path list" where
  "plainFiles (File c) = [[]]"
| "plainFiles (Dir es) =
     concat (map (\<lambda>e. if hidden (fst e) then []
                        else map ((#) (fst e)) (plainFiles (snd e))) es)"
| "plainFiles Other = []"

text \<open>No directory lists a name twice.\<close>

fun distinctNames :: "node \<Rightarrow> bool" where
  "distinctNames (Dir es) = (distinct (map fst es) \<and> (\<forall>e \<in> set es. distinctNames (snd e)))"
| "distinctNames n = True"

text \<open>
  The file the schema touch is to change: the schema file when that path exists, else the
  first plain file of the schema directory, else none.
\<close>

definition touchTarget :: "node \<Rightarrow> path \<Rightarrow> path option" where
  "touchTarget fs apiDir =
     (if lookup fs (apiDir @ [''schema.graphql'']) \<noteq> None then Some (apiDir @ [''schema.graphql''])
      else (case lookup fs (apiDir @ [''schema'']) of
              None \<Rightarrow> None
            | Some n \<Rightarrow> (case plainFiles n of
                           [] \<Rightarrow> None
                         | rel # rels \<Rightarrow> Some (apiDir @ [''schema''] @ rel))))"

text \<open>
  Following the words of the spec for the list-query policy: a template is unsafe when it
  contains the filter-expression assignment at some index, not followed, blanks apart, by
  the guard. The unsafe set of a resolver map is the set of the unsafe bodies of the
  entries whose name starts with \<open>Query.list\<close> and ends with \<open>.req.vtl\<close>.
\<close>

definition unsafeTemplate :: "string \<Rightarrow> bool" where
  "unsafeTemplate s =
     list_ex (\<lambda>i. prefix filterAssignment (drop i s) \<and>
                   \<not> prefix filterGuard (dropWhile isSpace (drop (i + length filterAssignment) s)))
       [0..<Suc (length s)]"

definition unsafeSetSpec :: "(string \<times> string) list \<Rightarrow> string set" where
  "unsafeSetSpec resolvers =
     set (map snd (filter (\<lambda>(name, body).
            prefix ''Query.list'' name \<and> suffix ''.req.vtl'' name \<and> unsafeTemplate body)
          resolvers))"

section \<open>Example project states\<close>

text \<open>
  A project with two AppSync APIs. The first, \<open>blog\<close>, has a schema file and two generated
  list resolvers, both with the filter-expression assignment and no guard. The second,
  \<open>shop\<close>, has a schema directory with a hidden file and a nested directory holding one
  file.
\<close>

definition blogDir :: node where
  "blogDir =
     Dir [(''schema.graphql'', File ''type Post @model @auth(rules: [{allow: owner}]) { id: ID! }''),
          (''build'', Dir [(''resolvers'',
             Dir [(''.gitkeep'', File []),
                  (''Query.listPosts.req.vtl'', File filterAssignment),
                  (''Query.listTags.req.vtl'', File (filterAssignment @ ''x''))])])]"

definition shopDir :: node where
  "shopDir =
     Dir [(''schema'',
           Dir [(''.hidden'', File ''h''),
                (''nested'', Dir [(''a.graphql'', File ''type A'')])])]"

definition exampleTree :: node where
  "exampleTree =
     Dir [(''amplify'', Dir [(''backend'', Dir [(''api'',
        Dir [(''blog'', blogDir), (''shop'', shopDir)])])])]"

text \<open>The resolver map that \<open>loadResolvers\<close> gives for the first API.\<close>

definition blogResolvers :: "(string \<times> string) list" where
  "blogResolvers =
     [(''Query.listPosts.req.vtl'', filterAssignment),
      (''Query.listTags.req.vtl'', filterAssignment @ ''x'')]"

text \<open>
  The collaborators of the examples: resources live below amplify/backend/api, every
  schema parses to one type \<open>Post\<close> that carries \<open>model\<close> with subscriptions switched
  off, \<open>auth\<close> and \<open>primaryKey\<close>, and has a non-nullable field with \<open>auth\<close>; the user
  answers yes to every question; every flag defaults to true.
\<close>

definition postDirectives :: "directive list" where
  "postDirectives =
     [\<lparr>dir_name = ''model'',
       dir_arguments = [\<lparr>arg_name = ''subscriptions'', arg_value = NullValue\<rparr>]\<rparr>,
      \<lparr>dir_name = ''auth'', dir_arguments = []\<rparr>]"

definition postDocument :: document where
  "postDocument =
     [TypeDefinition ''Post'' postDirectives
        [\<lparr>field_name = ''id'', field_type = NonNullType (NamedType ''ID''),
          field_directives = [\<lparr>dir_name = ''auth'', dir_arguments = []\<rparr>,
                              \<lparr>dir_name = ''primaryKey'', dir_arguments = []\<rparr>]\<rparr>]]"

definition exampleCollaborators :: "bool \<Rightarrow> collaborators" where
  "exampleCollaborators answer =
     \<lparr>getResourceDirectoryPath = (\<lambda>name. [''amplify'', ''backend'', ''api'', name]),
      readProjectConfiguration = (\<lambda>fs p. Inr ''type Post''),
      parse = (\<lambda>s. Inr postDocument),
      collectDirectivesByType = (\<lambda>s. Inr [(''Post'', postDirectives)]),
      collectDirectivesByTypeNames = (\<lambda>s. Inr [(''Post'', [''model'', ''auth'', ''primaryKey''])]),
      yesOrNo = (\<lambda>n. answer),
      flagDefault = (\<lambda>n. True),
      pendingAppendLands = False\<rparr>"

text \<open>
  The example project: both APIs in the metadata with an auth resource, transformer
  version 2, both notification flags set. \<open>exampleWorld None\<close> has no cli.json.
\<close>

definition exampleWorld :: "(string \<rightharpoonup> bool) option \<Rightarrow> world" where
  "exampleWorld config =
     \<lparr>w_fs = exampleTree,
      w_meta = Some \<lparr>m_api = [(''blog'', ''AppSync''), (''shop'', ''AppSync'')], m_auth = True\<rparr>,
      w_cliJSON = config,
      w_flagValues = (\<lambda>n. True),
      w_transformerversion = 2,
      w_prompts = 0,
      w_emitted = 0,
      w_touches = 0\<rparr>"

text \<open>The same project with the API \<open>blog\<close> alone.\<close>

definition singleApiWorld :: "(string \<rightharpoonup> bool) option \<Rightarrow> world" where
  "singleApiWorld config =
     (exampleWorld config)\<lparr>w_meta := Some \<lparr>m_api = [(''blog'', ''AppSync'')], m_auth = True\<rparr>\<rparr>"



section \<open>Properties\<close>


lemma foldl_fieldAuthStep:
  "foldl fieldAuthStep acc doc =
     acc \<union> {n. \<exists>ds fs. TypeDefinition n ds fs \<in> set doc \<and> withAuth (TypeDefinition n ds fs) \<noteq> []}"
proof (induction doc arbitrary: acc)
  case Nil
  then show ?case by simp
next
  case (Cons d doc)
  show ?case
  proof (cases d)
    case (TypeDefinition n ds fs)
    then show ?thesis using Cons.IH by auto
  next
    case (OtherDefinition n ds)
    then show ?thesis using Cons.IH by auto
  qed
qed

lemma withAuth_nonempty:
  "withAuth (TypeDefinition n ds fs) \<noteq> [] \<longleftrightarrow>
     (\<exists>f \<in> set fs. (\<exists>t. field_type f = NonNullType t) \<and>
        (\<exists>dir \<in> set (field_directives f). dir_name dir = ''auth''))"
proof -
  have nn: "\<And>f. nonNullable f \<longleftrightarrow> (\<exists>t. field_type f = NonNullType t)"
    by (simp add: nonNullable_def split: gtype.splits)
  show ?thesis
    by (auto simp: withAuth_def filter_empty_conv hasAuth_def nn list_ex_iff)
qed

text \<open>
  Claim C5: \<open>hasFieldAuthDirectives\<close> returns exactly the names of the type definitions that
  have at least one field which is non-nullable (its type is a \<open>NonNullType\<close>) and carries a
  directive named \<open>auth\<close>. A nullable field with \<open>auth\<close> contributes nothing, and the
  result is empty when no field qualifies.
\<close>

theorem hasFieldAuthDirectives_exact:
  "hasFieldAuthDirectives doc =
     {n. \<exists>ds fs. TypeDefinition n ds fs \<in> set doc \<and>
          (\<exists>f \<in> set fs. (\<exists>t. field_type f = NonNullType t) \<and>
             (\<exists>dir \<in> set (field_directives f). dir_name dir = ''auth''))}"
  unfolding hasFieldAuthDirectives_def foldl_fieldAuthStep withAuth_nonempty by simp

lemma foldl_containsAuthDir:
  "foldl (\<lambda>acc d. if hasAuth (def_directives d) then True else acc) acc doc
     \<longleftrightarrow> acc \<or> (\<exists>d \<in> set doc. hasAuth (def_directives d))"
  by (induction doc arbitrary: acc) auto

lemma hasV2AuthDirectives_hasAuth:
  "hasV2AuthDirectives v doc \<longleftrightarrow> v = 2 \<and> (\<exists>ds \<in> set (map def_directives doc). hasAuth ds)"
  unfolding hasV2AuthDirectives_def Let_def foldl_containsAuthDir by auto

theorem hasFieldAuthDirectives_exact_witness:
  "hasFieldAuthDirectives
     [TypeDefinition ''Post'' []
        [\<lparr>field_name = ''id'', field_type = NonNullType (NamedType ''ID''),
          field_directives = [\<lparr>dir_name = ''auth'', dir_arguments = []\<rparr>]\<rparr>],
      TypeDefinition ''Note'' []
        [\<lparr>field_name = ''body'', field_type = NamedType ''String'',
          field_directives = [\<lparr>dir_name = ''auth'', dir_arguments = []\<rparr>]\<rparr>]]
   = {''Post''}"
  unfolding hasFieldAuthDirectives_exact by auto

text \<open>
  Claim C6: \<open>hasV2AuthDirectives\<close> is true iff the transformer version is 2 and some
  definition of the document carries, on the definition itself, a directive named \<open>auth\<close>.
  It is false for every other transformer version, and the directives of fields do not
  matter: two documents whose definitions carry the same directives give the same result.
\<close>

theorem hasV2AuthDirectives_iff:
  "(hasV2AuthDirectives v doc \<longleftrightarrow>
      v = 2 \<and> (\<exists>d \<in> set doc. \<exists>dir \<in> set (def_directives d). dir_name dir = ''auth''))
   \<and> (v \<noteq> 2 \<longrightarrow> \<not> hasV2AuthDirectives v doc)
   \<and> (map def_directives doc = map def_directives doc' \<longrightarrow>
        hasV2AuthDirectives v doc = hasV2AuthDirectives v doc')"
  by (auto simp: hasV2AuthDirectives_hasAuth hasAuth_def list_ex_iff)

theorem hasV2AuthDirectives_iff_witness:
  "hasV2AuthDirectives 2 [TypeDefinition ''Post'' [\<lparr>dir_name = ''auth'', dir_arguments = []\<rparr>] []]
   \<and> (3 \<noteq> (2::int) \<and>
        \<not> hasV2AuthDirectives 3 [TypeDefinition ''Post'' [\<lparr>dir_name = ''auth'', dir_arguments = []\<rparr>] []])
   \<and> \<not> hasV2AuthDirectives 2
        [TypeDefinition ''Post'' []
           [\<lparr>field_name = ''id'', field_type = NonNullType (NamedType ''ID''),
             field_directives = [\<lparr>dir_name = ''auth'', dir_arguments = []\<rparr>]\<rparr>]]
   \<and> (map def_directives
          [TypeDefinition ''Post'' []
             [\<lparr>field_name = ''id'', field_type = NonNullType (NamedType ''ID''),
               field_directives = [\<lparr>dir_name = ''auth'', dir_arguments = []\<rparr>]\<rparr>]]
        = map def_directives [TypeDefinition ''Post'' [] []])"
  using hasV2AuthDirectives_iff
    [of 2 "[TypeDefinition ''Post'' [\<lparr>dir_name = ''auth'', dir_arguments = []\<rparr>] []]" "[]"]
    hasV2AuthDirectives_iff
    [of 3 "[TypeDefinition ''Post'' [\<lparr>dir_name = ''auth'', dir_arguments = []\<rparr>] []]" "[]"]
    hasV2AuthDirectives_iff
    [of 2 "[TypeDefinition ''Post'' []
             [\<lparr>field_name = ''id'', field_type = NonNullType (NamedType ''ID''),
               field_directives = [\<lparr>dir_name = ''auth'', dir_arguments = []\<rparr>]\<rparr>]]"
        "[TypeDefinition ''Post'' [] []]"]
  by simp

lemma offOrNull_iff: "offOrNull v \<longleftrightarrow> v = NullValue \<or> v = StringValue ''off'' \<or> v = EnumValue ''off''"
  by (cases v) auto

lemma subscriptionArgOff_iff:
  "subscriptionArgOff arg \<longleftrightarrow>
     arg_name arg = ''subscriptions'' \<and>
     (arg_value arg = NullValue \<or>
      (\<exists>flds v. arg_value arg = ObjectValue flds \<and> (''level'', v) \<in> set flds \<and>
         (v = NullValue \<or> v = StringValue ''off'' \<or> v = EnumValue ''off'')))"
proof (cases "arg_value arg")
  case (ObjectValue flds)
  have "list_ex (\<lambda>(name, v). name = ''level'' \<and> offOrNull v) flds \<longleftrightarrow>
      (\<exists>v. (''level'', v) \<in> set flds \<and> offOrNull v)"
    by (auto simp: list_ex_iff)
  then show ?thesis using ObjectValue
    by (simp add: subscriptionArgOff_def offOrNull_iff)
qed (simp_all add: subscriptionArgOff_def)

lemma subscriptionOff_iff:
  "subscriptionOff typeObj \<longleftrightarrow>
     (\<exists>m arg. find (\<lambda>dir. dir_name dir = ''model'') typeObj = Some m \<and>
        arg \<in> set (dir_arguments m) \<and> subscriptionArgOff arg)"
proof (cases "find (\<lambda>dir. dir_name dir = ''model'') typeObj")
  case None
  then show ?thesis by (simp add: subscriptionOff_def)
next
  case (Some m)
  then show ?thesis by (auto simp: subscriptionOff_def list_ex_iff)
qed

text \<open>
  Claim C7: \<open>displayAuthNotification\<close> is true iff the transformer version is 2 and the
  directive map has a type name whose model directive (the first directive named \<open>model\<close>
  of its list) has an argument \<open>subscriptions\<close> that is an explicit null, or an object with
  a field \<open>level\<close> whose value is \<open>off\<close> or null, and that type name is in the given
  field-auth set.
\<close>

theorem displayAuthNotification_iff:
  "displayAuthNotification v directiveMap fieldDirectives \<longleftrightarrow>
     v = 2 \<and>
     (\<exists>typeName typeObj m arg.
        map_of directiveMap typeName = Some typeObj \<and>
        find (\<lambda>dir. dir_name dir = ''model'') typeObj = Some m \<and>
        arg \<in> set (dir_arguments m) \<and> arg_name arg = ''subscriptions'' \<and>
        (arg_value arg = NullValue \<or>
         (\<exists>flds lv. arg_value arg = ObjectValue flds \<and> (''level'', lv) \<in> set flds \<and>
            (lv = NullValue \<or> lv = StringValue ''off'' \<or> lv = EnumValue ''off''))) \<and>
        typeName \<in> fieldDirectives)"
proof -
  have "displayAuthNotification v directiveMap fieldDirectives \<longleftrightarrow>
      v = 2 \<and> (\<exists>typeName typeObj. map_of directiveMap typeName = Some typeObj \<and>
          subscriptionOff typeObj \<and> typeName \<in> fieldDirectives)"
  proof -
    have "\<And>typeName typeObj. map_of directiveMap typeName = Some typeObj \<Longrightarrow>
        typeName \<in> fst ` set directiveMap"
      by (metis domI dom_map_of_conv_image_fst)
    then show ?thesis
      by (fastforce simp: displayAuthNotification_def list_ex_iff split: option.splits)
  qed
  then show ?thesis
    unfolding subscriptionOff_iff subscriptionArgOff_iff by blast
qed


theorem displayAuthNotification_iff_witness:
  "displayAuthNotification 2
     [(''Post'', [\<lparr>dir_name = ''model'',
                   dir_arguments = [\<lparr>arg_name = ''subscriptions'', arg_value = NullValue\<rparr>]\<rparr>])]
     {''Post''}
   \<and> \<not> displayAuthNotification 1
     [(''Post'', [\<lparr>dir_name = ''model'',
                   dir_arguments = [\<lparr>arg_name = ''subscriptions'', arg_value = NullValue\<rparr>]\<rparr>])]
     {''Post''}"
proof -
  let ?m = "\<lparr>dir_name = ''model'',
             dir_arguments = [\<lparr>arg_name = ''subscriptions'', arg_value = NullValue\<rparr>]\<rparr>"
  have "\<exists>typeName typeObj m arg.
        map_of [(''Post'', [?m])] typeName = Some typeObj \<and>
        find (\<lambda>dir. dir_name dir = ''model'') typeObj = Some m \<and>
        arg \<in> set (dir_arguments m) \<and> arg_name arg = ''subscriptions'' \<and>
        (arg_value arg = NullValue \<or>
         (\<exists>flds lv. arg_value arg = ObjectValue flds \<and> (''level'', lv) \<in> set flds \<and>
            (lv = NullValue \<or> lv = StringValue ''off'' \<or> lv = EnumValue ''off''))) \<and>
        typeName \<in> {''Post''}"
    by (rule exI [of _ "''Post''"], rule exI [of _ "[?m]"], rule exI [of _ ?m],
        rule exI [of _ "\<lparr>arg_name = ''subscriptions'', arg_value = NullValue\<rparr>"]) simp
  then show ?thesis
    using displayAuthNotification_iff [of 2 "[(''Post'', [?m])]" "{''Post''}"]
      displayAuthNotification_iff [of 1 "[(''Post'', [?m])]" "{''Post''}"]
    by simp
qed

lemma indexOf_nonneg: "indexOf s c = -1 \<or> 0 \<le> indexOf s c"
  by (induction s) (auto simp: Let_def)

lemma indexOf_zero: "indexOf s c = 0 \<longleftrightarrow> (\<exists>r. s = c # r)"
proof (cases s)
  case Nil
  then show ?thesis by simp
next
  case (Cons x xs)
  then show ?thesis using indexOf_nonneg [of xs c] by (auto simp: Let_def)
qed

lemma hidden_indexOf: "indexOf name CHR ''.'' = 0 \<longleftrightarrow> hidden name"
  unfolding indexOf_zero by (cases name) auto

lemma lookup_append:
  "lookup n (p @ q) = (case lookup n p of None \<Rightarrow> None | Some m \<Rightarrow> lookup m q)"
  by (induction p arbitrary: n) (auto split: node.splits option.splits)










lemma plainFiles_Nil [simp]: "plainFiles (Dir []) = []"
  by simp

lemma plainFiles_Cons [simp]:
  "plainFiles (Dir ((name, n) # es)) =
     (if hidden name then [] else map ((#) name) (plainFiles n)) @ plainFiles (Dir es)"
  by simp

declare plainFiles.simps(2) [simp del]

lemma schemaDirectoryLoop_first:
  "schemaDirectoryLoop fs dirPath files =
     (case plainFiles (Dir files) of
        [] \<Rightarrow> (False, fs)
      | rel # rels \<Rightarrow> (True, appendFile fs (dirPath @ rel) '' ''))"
proof (induction fs dirPath files rule: schemaDirectoryLoop.induct)
  case (1 fs dirPath)
  then show ?case by simp
next
  case (2 fs dirPath fileName stats files)
  show ?case
  proof (cases "hidden fileName")
    case True
    then show ?thesis using "2.IH"(1) by (simp add: hidden_indexOf)
  next
    case nh: False
    show ?thesis
    proof (cases stats)
      case (File c)
      then show ?thesis using nh
        by (simp add: hidden_indexOf)
    next
      case Other
      then show ?thesis using nh "2.IH"(4)
        by (simp add: hidden_indexOf)
    next
      case (Dir sub)
      have ih1: "schemaDirectoryLoop fs (dirPath @ [fileName]) sub =
         (case plainFiles (Dir sub) of
            [] \<Rightarrow> (False, fs)
          | rel # rels \<Rightarrow> (True, appendFile fs ((dirPath @ [fileName]) @ rel) '' ''))"
        using "2.IH"(2) nh Dir by (simp add: hidden_indexOf)
      show ?thesis
      proof (cases "plainFiles (Dir sub)")
        case Nil
        then have r: "schemaDirectoryLoop fs (dirPath @ [fileName]) sub = (False, fs)"
          using ih1 by simp
        have ih2: "schemaDirectoryLoop fs dirPath files =
           (case plainFiles (Dir files) of
              [] \<Rightarrow> (False, fs)
            | rel # rels \<Rightarrow> (True, appendFile fs (dirPath @ rel) '' ''))"
          using "2.IH"(3) [OF _ _ refl Dir r [symmetric]] nh by (simp add: hidden_indexOf)
        show ?thesis using nh Dir r ih2 Nil
          by (simp add: hidden_indexOf)
      next
        case (Cons rel rels)
        then have r: "schemaDirectoryLoop fs (dirPath @ [fileName]) sub =
            (True, appendFile fs (dirPath @ fileName # rel) '' '')"
          using ih1 by simp
        show ?thesis using nh Dir r Cons
          by (simp add: hidden_indexOf)
      qed
    qed
  qed
qed


lemma lookup_Dir_Cons:
  "lookup (Dir es) (c # cs) = (case map_of es c of None \<Rightarrow> None | Some m \<Rightarrow> lookup m cs)"
  by simp

lemma lookup_modify_at_same:
  "lookup (modify_at f n p) p = map_option f (lookup n p)"
proof (induction p arbitrary: n)
  case Nil
  then show ?case by simp
next
  case (Cons c cs)
  show ?case
  proof (cases n)
    case (Dir es)
    then show ?thesis using Cons.IH
      by (cases "map_of es c") (simp_all add: map_of_map_entry)
  qed simp_all
qed

lemma lookup_appendFile_other:
  assumes "q \<noteq> p"
  shows "(case lookup (appendFile n p s) q of Some (File c) \<Rightarrow> Some c | _ \<Rightarrow> None) =
         (case lookup n q of Some (File c) \<Rightarrow> Some c | _ \<Rightarrow> None)
       \<and> (lookup (appendFile n p s) q = None \<longleftrightarrow> lookup n q = None)
       \<and> ((\<exists>es. lookup (appendFile n p s) q = Some (Dir es)) \<longleftrightarrow> (\<exists>es. lookup n q = Some (Dir es)))"
  using assms
proof (induction p arbitrary: n q)
  case Nil
  then obtain d ds where q: "q = d # ds" by (cases q) auto
  show ?case unfolding q appendFile_def by (cases n) simp_all
next
  case (Cons c cs)
  show ?case
  proof (cases n)
    case (Dir es)
    show ?thesis
    proof (cases q)
      case Nil
      then show ?thesis using Dir by (simp add: appendFile_def)
    next
      case q: (Cons d ds)
      show ?thesis
      proof (cases "d = c")
        case False
        then show ?thesis using Dir q by (simp add: appendFile_def map_of_map_entry)
      next
        case True
        with Cons.prems q have ne: "ds \<noteq> cs" by simp
        show ?thesis
        proof (cases "map_of es c")
          case None
          then show ?thesis using Dir q True by (simp add: appendFile_def map_of_map_entry)
        next
          case (Some m)
          from Cons.IH [OF ne, of m] show ?thesis
            using Dir q True Some by (simp add: appendFile_def map_of_map_entry)
        qed
      qed
    qed
  qed (simp_all add: appendFile_def)
qed

lemma readFile_appendFile_other:
  "q \<noteq> p \<Longrightarrow> readFile (appendFile n p s) q = readFile n q"
proof -
  assume ne: "q \<noteq> p"
  note l = lookup_appendFile_other [OF ne, of n s]
  show ?thesis
  proof (cases "lookup n q")
    case None
    then show ?thesis using l by (simp add: readFile_def)
  next
    case (Some m)
    then obtain m' where m': "lookup (appendFile n p s) q = Some m'" using l by auto
    show ?thesis using l Some m' by (cases m; cases m') (auto simp: readFile_def)
  qed
qed

lemma existsSync_appendFile: "existsSync (appendFile n p s) q = existsSync n q"
proof (cases "q = p")
  case True
  then show ?thesis by (simp add: existsSync_def appendFile_def lookup_modify_at_same)
next
  case False
  then show ?thesis using lookup_appendFile_other [OF False, of n s] by (simp add: existsSync_def)
qed

lemma readFile_appendFile_same:
  "lookup n p = Some (File c) \<Longrightarrow> readFile (appendFile n p s) p = Inr (c @ s)"
  by (simp add: readFile_def appendFile_def lookup_modify_at_same)

lemma distinctNames_lookup:
  "distinctNames n \<Longrightarrow> lookup n p = Some m \<Longrightarrow> distinctNames m"
proof (induction p arbitrary: n)
  case Nil
  then show ?case by simp
next
  case (Cons c cs)
  then obtain es where n: "n = Dir es" by (cases n) auto
  with Cons.prems obtain k where k: "map_of es c = Some k" and lk: "lookup k cs = Some m"
    by (auto split: option.splits)
  from k have "(c, k) \<in> set es" by (rule map_of_SomeD)
  with Cons.prems(1) n have "distinctNames k" by auto
  with Cons.IH lk show ?case by blast
qed

lemma plainFiles_are_files:
  "distinctNames n \<Longrightarrow> rel \<in> set (plainFiles n) \<Longrightarrow> \<exists>c. lookup n rel = Some (File c)"
proof (induction n arbitrary: rel rule: plainFiles.induct)
  case (1 c)
  then show ?case by simp
next
  case (2 es)
  from "2.prems"(2) obtain e r where e: "e \<in> set es" "\<not> hidden (fst e)"
      and r: "r \<in> set (plainFiles (snd e))" and rel: "rel = fst e # r"
    by (auto simp: plainFiles.simps(2) split: if_splits)
  from "2.prems"(1) e have dn: "distinctNames (snd e)" and ds: "distinct (map fst es)" by auto
  from "2.IH" [OF e(1) e(2) dn r] obtain c where c: "lookup (snd e) r = Some (File c)" by blast
  from ds e(1) have "map_of es (fst e) = Some (snd e)" by (cases e) simp
  with c rel show ?case by simp
next
  case 3
  then show ?case by simp
qed

text \<open>
  Claim C9: on a tree in which no directory lists a name twice, where the schema file, if
  that path exists, is a plain file and the schema directory, if that path exists, is a
  directory, \<open>modifyGraphQLSchema\<close> succeeds and changes at most one file. The file is the
  schema file if it exists, otherwise the first plain file that a depth-first descent of
  the schema directory reaches when it skips hidden entries. That file gets one blank
  appended, every other path reads as before and exists as before. With neither path there
  is no target and the tree is returned as it is.
\<close>

theorem modifyGraphQLSchema_touches_one:
  assumes "distinctNames fs"
    and "\<forall>n. lookup fs (apiDir @ [''schema.graphql'']) = Some n \<longrightarrow> (\<exists>c. n = File c)"
    and "\<forall>n. lookup fs (apiDir @ [''schema'']) = Some n \<longrightarrow> (\<exists>es. n = Dir es)"
  shows "\<exists>fs'. modifyGraphQLSchema fs apiDir = Inr fs' \<and>
           (case touchTarget fs apiDir of
              None \<Rightarrow> fs' = fs
            | Some p \<Rightarrow>
                fs' = appendFile fs p '' '' \<and>
                (\<exists>c. readFile fs p = Inr c \<and> readFile fs' p = Inr (c @ '' '')) \<and>
                (\<forall>q. q \<noteq> p \<longrightarrow> readFile fs' q = readFile fs q) \<and>
                (\<forall>q. existsSync fs' q = existsSync fs q))
         \<and> (lookup fs (apiDir @ [''schema.graphql'']) = None \<and> lookup fs (apiDir @ [''schema'']) = None
              \<longrightarrow> touchTarget fs apiDir = None)"
proof -
  have frame: "\<And>p c. lookup fs p = Some (File c) \<Longrightarrow>
      (\<exists>c. readFile fs p = Inr c \<and> readFile (appendFile fs p '' '') p = Inr (c @ '' '')) \<and>
      (\<forall>q. q \<noteq> p \<longrightarrow> readFile (appendFile fs p '' '') q = readFile fs q) \<and>
      (\<forall>q. existsSync (appendFile fs p '' '') q = existsSync fs q)"
  proof -
    fix p c assume lk: "lookup fs p = Some (File c)"
    have "readFile fs p = Inr c" using lk by (simp add: readFile_def)
    then show "(\<exists>c. readFile fs p = Inr c \<and> readFile (appendFile fs p '' '') p = Inr (c @ '' '')) \<and>
      (\<forall>q. q \<noteq> p \<longrightarrow> readFile (appendFile fs p '' '') q = readFile fs q) \<and>
      (\<forall>q. existsSync (appendFile fs p '' '') q = existsSync fs q)"
      using readFile_appendFile_same [OF lk, of "'' ''"]
      by (simp add: readFile_appendFile_other existsSync_appendFile)
  qed
  have last: "lookup fs (apiDir @ [''schema.graphql'']) = None \<and> lookup fs (apiDir @ [''schema'']) = None
              \<longrightarrow> touchTarget fs apiDir = None"
    by (simp add: touchTarget_def)
  show ?thesis
  proof (cases "lookup fs (apiDir @ [''schema.graphql''])")
    case (Some n)
    with assms(2) obtain c where c: "lookup fs (apiDir @ [''schema.graphql'']) = Some (File c)" by auto
    have t: "touchTarget fs apiDir = Some (apiDir @ [''schema.graphql''])"
      using c by (simp add: touchTarget_def)
    have m: "modifyGraphQLSchema fs apiDir = Inr (appendFile fs (apiDir @ [''schema.graphql'']) '' '')"
      using c by (simp add: modifyGraphQLSchema_def existsSync_def)
    show ?thesis using frame [OF c] t m last by simp
  next
    case noFile: None
    show ?thesis
    proof (cases "lookup fs (apiDir @ [''schema''])")
      case None
      then show ?thesis using noFile
        by (simp add: modifyGraphQLSchema_def existsSync_def touchTarget_def)
    next
      case (Some n)
      with assms(3) obtain es where es: "lookup fs (apiDir @ [''schema'']) = Some (Dir es)" by auto
      have dn: "distinctNames (Dir es)" using distinctNames_lookup [OF assms(1) es] .
      show ?thesis
      proof (cases "plainFiles (Dir es)")
        case Nil
        then show ?thesis using noFile es
          by (simp add: modifyGraphQLSchema_def existsSync_def touchTarget_def
              modifyGraphQLSchemaDirectory_def schemaDirectoryLoop_first)
      next
        case (Cons rel rels)
        then have "rel \<in> set (plainFiles (Dir es))" by simp
        from plainFiles_are_files [OF dn this] obtain c where "lookup (Dir es) rel = Some (File c)"
          by blast
        then have c: "lookup fs ((apiDir @ [''schema'']) @ rel) = Some (File c)"
          using es by (simp only: lookup_append [of fs "apiDir @ [''schema'']" rel] option.case)
        have t: "touchTarget fs apiDir = Some ((apiDir @ [''schema'']) @ rel)"
          using noFile es Cons by (simp add: touchTarget_def)
        have m: "modifyGraphQLSchema fs apiDir = Inr (appendFile fs ((apiDir @ [''schema'']) @ rel) '' '')"
          using noFile es Cons
          by (simp add: modifyGraphQLSchema_def existsSync_def
              modifyGraphQLSchemaDirectory_def schemaDirectoryLoop_first)
        show ?thesis using frame [OF c] last unfolding t m by simp
      qed
    qed
  qed
qed


theorem modifyGraphQLSchema_touches_one_witness:
  "distinctNames shopDir
   \<and> lookup shopDir ([] @ [''schema.graphql'']) = None
   \<and> (\<exists>es. lookup shopDir ([] @ [''schema'']) = Some (Dir es))
   \<and> touchTarget shopDir [] = Some [''schema'', ''nested'', ''a.graphql'']
   \<and> (\<exists>fs'. modifyGraphQLSchema shopDir [] = Inr fs' \<and>
         fs' = appendFile shopDir [''schema'', ''nested'', ''a.graphql''] '' '' \<and>
         readFile fs' [''schema'', ''nested'', ''a.graphql''] = Inr ''type A '' \<and>
         readFile fs' [''schema'', ''.hidden''] = Inr ''h'')"
proof -
  have h1: "distinctNames shopDir" by (simp add: shopDir_def)
  have h2: "\<forall>n. lookup shopDir ([] @ [''schema.graphql'']) = Some n \<longrightarrow> (\<exists>c. n = File c)"
    by (simp add: shopDir_def)
  have h3: "\<forall>n. lookup shopDir ([] @ [''schema'']) = Some n \<longrightarrow> (\<exists>es. n = Dir es)"
    by (simp add: shopDir_def)
  have t: "touchTarget shopDir [] = Some [''schema'', ''nested'', ''a.graphql'']"
    by (simp add: touchTarget_def shopDir_def)
  have r: "readFile shopDir [''schema'', ''nested'', ''a.graphql''] = Inr ''type A''"
    "readFile shopDir [''schema'', ''.hidden''] = Inr ''h''"
    by (simp_all add: readFile_def shopDir_def)
  from modifyGraphQLSchema_touches_one [OF h1 h2 h3]
  have "\<exists>fs'. modifyGraphQLSchema shopDir [] = Inr fs' \<and>
         fs' = appendFile shopDir [''schema'', ''nested'', ''a.graphql''] '' '' \<and>
         readFile fs' [''schema'', ''nested'', ''a.graphql''] = Inr ''type A '' \<and>
         readFile fs' [''schema'', ''.hidden''] = Inr ''h''"
    unfolding t using r by auto
  moreover have "lookup shopDir ([] @ [''schema.graphql'']) = None"
    "\<exists>es. lookup shopDir ([] @ [''schema'']) = Some (Dir es)"
    by (simp_all add: shopDir_def)
  ultimately show ?thesis using h1 t by blast
qed


lemma setNotificationFlag_frame [simp]:
  "w_fs (setNotificationFlag c w f v) = w_fs w"
  "w_prompts (setNotificationFlag c w f v) = w_prompts w"
  "w_emitted (setNotificationFlag c w f v) = w_emitted w"
  "w_meta (setNotificationFlag c w f v) = w_meta w"
  "w_transformerversion (setNotificationFlag c w f v) = w_transformerversion w"
  "w_touches (setNotificationFlag c w f v) = w_touches w"
  by (simp_all add: setNotificationFlag_def ensureFeatureFlag_def reloadValues_def
      split: option.splits)

lemma invokeModifyGraphQLSchema_running:
  "invokeModifyGraphQLSchema c None w dir =
     (case modifyGraphQLSchema (w_fs w) dir of
        Inl e \<Rightarrow> (Some e, w\<lparr>w_touches := Suc (w_touches w)\<rparr>)
      | Inr fs' \<Rightarrow> (None, w\<lparr>w_touches := Suc (w_touches w), w_fs := fs'\<rparr>))"
  by (simp add: invokeModifyGraphQLSchema_def Let_def split: sum.splits)

lemma invokeModifyGraphQLSchema_exiting:
  "invokeModifyGraphQLSchema c (Some code) w dir =
     (None, w\<lparr>w_touches := Suc (w_touches w),
              w_fs := modifyGraphQLSchemaBeforeExit c (w_fs w) dir\<rparr>)"
  by (simp add: invokeModifyGraphQLSchema_def Let_def)

lemma invokeModifyGraphQLSchema_frame [simp]:
  "w_prompts (snd (invokeModifyGraphQLSchema c s w dir)) = w_prompts w"
  "w_emitted (snd (invokeModifyGraphQLSchema c s w dir)) = w_emitted w"
  "w_meta (snd (invokeModifyGraphQLSchema c s w dir)) = w_meta w"
  "w_cliJSON (snd (invokeModifyGraphQLSchema c s w dir)) = w_cliJSON w"
  "w_flagValues (snd (invokeModifyGraphQLSchema c s w dir)) = w_flagValues w"
  "w_touches (snd (invokeModifyGraphQLSchema c s w dir)) = Suc (w_touches w)"
  by (simp_all add: invokeModifyGraphQLSchema_def Let_def split: option.splits sum.splits)

text \<open>
  The three policies once their trigger condition holds: the question is asked, and
  \<open>modifyGraphQLSchema\<close> is called on the API resource directory whatever the answer.
\<close>

lemma field_triggered:
  assumes "w_flagValues w ''showfieldauthnotification''"
    and "getApiResourceDir c w = Some dir"
    and "readProjectConfiguration c (w_fs w) dir = Inr schema"
    and "collectDirectivesByType c schema = Inr directiveMap"
    and "parse c schema = Inr doc"
    and "displayAuthNotification (w_transformerversion w) directiveMap (hasFieldAuthDirectives doc)"
  shows "notifyFieldAuthSecurityChange c w =
     (if yesOrNo c (w_prompts w) then
        (Returned True,
         setNotificationFlag c
           (w\<lparr>w_prompts := Suc (w_prompts w), w_touches := Suc (w_touches w),
              w_fs := (case modifyGraphQLSchema (w_fs w) dir of
                         Inl e \<Rightarrow> w_fs w | Inr fs' \<Rightarrow> fs')\<rparr>)
           ''showfieldauthnotification'' False)
      else
        (Exited 0,
         w\<lparr>w_prompts := Suc (w_prompts w), w_emitted := Suc (w_emitted w),
           w_touches := Suc (w_touches w),
           w_fs := modifyGraphQLSchemaBeforeExit c (w_fs w) dir\<rparr>))"
  using assms
  by (simp add: notifyFieldAuthSecurityChange_def Let_def prompt_def exitOnNextTick_def
      emitSuccess_def invokeModifyGraphQLSchema_running invokeModifyGraphQLSchema_exiting
      split: sum.splits)

lemma list_triggered:
  assumes "getApiResourceDir c w = Some dir"
    and "readProjectConfiguration c (w_fs w) dir = Inr schema"
    and "loadResolvers (w_fs w) dir = Inr resolvers"
    and "resolversToSecure resolvers \<noteq> []"
    and "parse c schema = Inr doc"
    and "hasV2AuthDirectives (w_transformerversion w) doc"
  shows "notifyListQuerySecurityChange c w =
     (if yesOrNo c (w_prompts w) then
        (Returned True,
         w\<lparr>w_prompts := Suc (w_prompts w), w_touches := Suc (w_touches w),
           w_fs := (case modifyGraphQLSchema (w_fs w) dir of
                      Inl e \<Rightarrow> w_fs w | Inr fs' \<Rightarrow> fs')\<rparr>)
      else
        (Exited 0,
         w\<lparr>w_prompts := Suc (w_prompts w), w_emitted := Suc (w_emitted w),
           w_touches := Suc (w_touches w),
           w_fs := modifyGraphQLSchemaBeforeExit c (w_fs w) dir\<rparr>))"
  using assms
  by (simp add: notifyListQuerySecurityChange_def Let_def prompt_def exitOnNextTick_def
      emitSuccess_def invokeModifyGraphQLSchema_running invokeModifyGraphQLSchema_exiting
      split: sum.splits)

lemma enhancement_triggered_declined:
  assumes "w_flagValues w ''securityEnhancementNotification''"
    and "appSyncApiNames w = [name]"
    and "existsSync (w_fs w) (getResourceDirectoryPath c name)"
    and "readProjectConfiguration c (w_fs w) (getResourceDirectoryPath c name) = Inr schema"
    and "collectDirectivesByTypeNames c schema = Inr types"
    and "w_meta w = Some m" and "m_auth m" and "notifyAuthWithKey types"
    and "\<not> yesOrNo c (w_prompts w)"
  shows "notifySecurityEnhancement c w =
        (Exited 0,
         w\<lparr>w_prompts := Suc (w_prompts w), w_emitted := Suc (w_emitted w),
           w_touches := Suc (w_touches w),
           w_fs := modifyGraphQLSchemaBeforeExit c (w_fs w) (getResourceDirectoryPath c name)\<rparr>)"
  using assms
  by (simp add: notifySecurityEnhancement_def Let_def prompt_def exitOnNextTick_def
      emitSuccess_def invokeModifyGraphQLSchema_exiting)

text \<open>
  Claim C1 on the example project, with a user who answers no. Each policy asks its
  question, emits one success event and ends the process with exit code 0, as the claim
  says. But each has also called \<open>modifyGraphQLSchema\<close> once by then: the call follows
  \<open>exitOnNextTick(0)\<close> with no \<open>return\<close> in between, so it is not made after a yes only.
\<close>

theorem declined_question_still_calls_modifyGraphQLSchema:
  "fst (notifyFieldAuthSecurityChange (exampleCollaborators False) (exampleWorld None)) = Exited 0
   \<and> w_prompts (snd (notifyFieldAuthSecurityChange (exampleCollaborators False) (exampleWorld None))) = 1
   \<and> w_emitted (snd (notifyFieldAuthSecurityChange (exampleCollaborators False) (exampleWorld None))) = 1
   \<and> w_touches (snd (notifyFieldAuthSecurityChange (exampleCollaborators False) (exampleWorld None))) = 1
   \<and> fst (notifyListQuerySecurityChange (exampleCollaborators False) (exampleWorld None)) = Exited 0
   \<and> w_prompts (snd (notifyListQuerySecurityChange (exampleCollaborators False) (exampleWorld None))) = 1
   \<and> w_emitted (snd (notifyListQuerySecurityChange (exampleCollaborators False) (exampleWorld None))) = 1
   \<and> w_touches (snd (notifyListQuerySecurityChange (exampleCollaborators False) (exampleWorld None))) = 1
   \<and> fst (notifySecurityEnhancement (exampleCollaborators False) (singleApiWorld None)) = Exited 0
   \<and> w_prompts (snd (notifySecurityEnhancement (exampleCollaborators False) (singleApiWorld None))) = 1
   \<and> w_emitted (snd (notifySecurityEnhancement (exampleCollaborators False) (singleApiWorld None))) = 1
   \<and> w_touches (snd (notifySecurityEnhancement (exampleCollaborators False) (singleApiWorld None))) = 1
   \<and> w_touches (exampleWorld None) = 0 \<and> w_touches (singleApiWorld None) = 0
   \<and> \<not> yesOrNo (exampleCollaborators False) (w_prompts (exampleWorld None))"
  by code_simp


lemma setNotificationFlag_clears:
  "w_cliJSON w = Some config \<Longrightarrow>
     \<not> w_flagValues (setNotificationFlag c w f False) f
     \<and> (\<exists>cfg. w_cliJSON (setNotificationFlag c w f False) = Some cfg \<and> cfg f = Some False)"
  by (simp add: setNotificationFlag_def ensureFeatureFlag_def reloadValues_def)

lemma setNotificationFlag_absent:
  "w_cliJSON w = None \<Longrightarrow> setNotificationFlag c w f v = w"
  by (simp add: setNotificationFlag_def ensureFeatureFlag_def)

lemma field_flag_off:
  "\<not> w_flagValues w ''showfieldauthnotification'' \<Longrightarrow>
     notifyFieldAuthSecurityChange c w = (Returned False, w)"
  by (simp add: notifyFieldAuthSecurityChange_def)

lemma enhancement_flag_off:
  "\<not> w_flagValues w ''securityEnhancementNotification'' \<Longrightarrow>
     notifySecurityEnhancement c w = (Returned (), w)"
  by (simp add: notifySecurityEnhancement_def)

lemma field_returned_flag_off:
  assumes "notifyFieldAuthSecurityChange c w = (Returned b, w1)" and "w_cliJSON w = Some config"
  shows "\<not> w_flagValues w1 ''showfieldauthnotification''"
proof (cases "w_flagValues w ''showfieldauthnotification''")
  case False
  with assms(1) show ?thesis by (simp add: field_flag_off)
next
  case True
  have "\<And>u. w_cliJSON u = Some config \<Longrightarrow>
      \<not> w_flagValues (setNotificationFlag c u ''showfieldauthnotification'' False)
          ''showfieldauthnotification''"
    using setNotificationFlag_clears by blast
  then show ?thesis using assms True
    unfolding notifyFieldAuthSecurityChange_def
    by (auto simp: Let_def prompt_def exitOnNextTick_def emitSuccess_def
        invokeModifyGraphQLSchema_def
        split: option.splits sum.splits prod.splits if_splits)
qed

lemma enhancement_returned_flag_off:
  assumes "notifySecurityEnhancement c w = (Returned (), w1)" and "w_cliJSON w = Some config"
    and "w_flagValues w ''securityEnhancementNotification''"
  shows "\<not> w_flagValues w1 ''securityEnhancementNotification''
         \<and> (\<exists>cfg. w_cliJSON w1 = Some cfg \<and> cfg ''securityEnhancementNotification'' = Some False)"
proof -
  have "\<And>u. w_cliJSON u = Some config \<Longrightarrow>
      \<not> w_flagValues (setNotificationFlag c u ''securityEnhancementNotification'' False)
          ''securityEnhancementNotification''
      \<and> (\<exists>cfg. w_cliJSON (setNotificationFlag c u ''securityEnhancementNotification'' False) = Some cfg
            \<and> cfg ''securityEnhancementNotification'' = Some False)"
    using setNotificationFlag_clears by blast
  then show ?thesis using assms
    unfolding notifySecurityEnhancement_def
    by (auto simp: Let_def prompt_def exitOnNextTick_def emitSuccess_def
        invokeModifyGraphQLSchema_def
        split: option.splits sum.splits prod.splits if_splits)
qed

text \<open>
  Claim C2, as amended: when the project's cli.json exists, a second call of
  \<open>notifyFieldAuthSecurityChange\<close> or of \<open>notifySecurityEnhancement\<close>, made after the first
  call has returned, asks nothing and changes nothing: it returns false (nothing for the
  second policy).
\<close>

theorem flagged_policies_ask_once:
  assumes "w_cliJSON w = Some config"
  shows "(\<forall>b w1. notifyFieldAuthSecurityChange c w = (Returned b, w1) \<longrightarrow>
            notifyFieldAuthSecurityChange c w1 = (Returned False, w1))
       \<and> (\<forall>w1. notifySecurityEnhancement c w = (Returned (), w1) \<longrightarrow>
            notifySecurityEnhancement c w1 = (Returned (), w1))"
proof (intro conjI allI impI)
  fix b w1 assume "notifyFieldAuthSecurityChange c w = (Returned b, w1)"
  from field_returned_flag_off [OF this assms]
  show "notifyFieldAuthSecurityChange c w1 = (Returned False, w1)" by (rule field_flag_off)
next
  fix w1 assume r: "notifySecurityEnhancement c w = (Returned (), w1)"
  show "notifySecurityEnhancement c w1 = (Returned (), w1)"
  proof (cases "w_flagValues w ''securityEnhancementNotification''")
    case True
    from enhancement_returned_flag_off [OF r assms True]
    show ?thesis by (simp add: enhancement_flag_off)
  next
    case False
    with r show ?thesis by (simp add: enhancement_flag_off)
  qed
qed

theorem flagged_policies_ask_once_witness:
  "w_cliJSON (exampleWorld (Some Map.empty)) = Some Map.empty
   \<and> fst (notifyFieldAuthSecurityChange (exampleCollaborators True) (exampleWorld (Some Map.empty)))
       = Returned True
   \<and> w_prompts (snd (notifyFieldAuthSecurityChange (exampleCollaborators True)
         (exampleWorld (Some Map.empty)))) = 1
   \<and> notifyFieldAuthSecurityChange (exampleCollaborators True)
        (snd (notifyFieldAuthSecurityChange (exampleCollaborators True) (exampleWorld (Some Map.empty))))
      = (Returned False,
         snd (notifyFieldAuthSecurityChange (exampleCollaborators True) (exampleWorld (Some Map.empty))))"
proof -
  have cfg: "w_cliJSON (exampleWorld (Some Map.empty)) = Some Map.empty"
    by (simp add: exampleWorld_def)
  have r: "fst (notifyFieldAuthSecurityChange (exampleCollaborators True) (exampleWorld (Some Map.empty)))
       = Returned True"
    by code_simp
  have p: "w_prompts (snd (notifyFieldAuthSecurityChange (exampleCollaborators True)
         (exampleWorld (Some Map.empty)))) = 1"
    by code_simp
  from r have "notifyFieldAuthSecurityChange (exampleCollaborators True) (exampleWorld (Some Map.empty)) =
      (Returned True,
       snd (notifyFieldAuthSecurityChange (exampleCollaborators True) (exampleWorld (Some Map.empty))))"
    by (metis prod.collapse)
  with flagged_policies_ask_once [OF cfg, of "exampleCollaborators True"]
  have "notifyFieldAuthSecurityChange (exampleCollaborators True)
        (snd (notifyFieldAuthSecurityChange (exampleCollaborators True) (exampleWorld (Some Map.empty))))
      = (Returned False,
         snd (notifyFieldAuthSecurityChange (exampleCollaborators True) (exampleWorld (Some Map.empty))))"
    by blast
  with cfg r p show ?thesis by blast
qed

text \<open>
  Claim C2 as stated fails for \<open>notifyListQuerySecurityChange\<close>, which has no flag: on the
  example project, with a cli.json and a user who answers yes, the second call asks again
  and returns true again.
\<close>

theorem listQuery_asks_twice:
  "fst (notifyListQuerySecurityChange (exampleCollaborators True) (exampleWorld (Some Map.empty)))
     = Returned True
   \<and> fst (notifyListQuerySecurityChange (exampleCollaborators True)
        (snd (notifyListQuerySecurityChange (exampleCollaborators True) (exampleWorld (Some Map.empty)))))
     = Returned True
   \<and> w_prompts (snd (notifyListQuerySecurityChange (exampleCollaborators True)
        (snd (notifyListQuerySecurityChange (exampleCollaborators True) (exampleWorld (Some Map.empty))))))
     = 2"
  by code_simp


lemma set_upt_Suc_le: "set [0..<Suc n] = {j. j \<le> n}"
  by (simp only: set_upt) (simp only: atLeastLessThan_def atLeast_def lessThan_def less_Suc_eq_le, simp)

lemma list_ex_upt_Suc: "list_ex P [0..<Suc n] \<longleftrightarrow> (\<exists>j. j \<le> n \<and> P j)"
  unfolding list_ex_iff set_upt_Suc_le by blast

lemma find_not_None: "find Q xs \<noteq> None \<longleftrightarrow> (\<exists>x \<in> set xs. Q x)"
  by (induction xs) auto

lemma filterGuard_head: "filterGuard = CHR ''#'' # tl filterGuard \<and> \<not> isSpace CHR ''#''"
  by (simp add: filterGuard_def isSpace_def)

lemma prefix_guard_space:
  "t \<noteq> [] \<Longrightarrow> isSpace (hd t) \<Longrightarrow> \<not> prefix filterGuard t"
proof
  assume ne: "t \<noteq> []" and sp: "isSpace (hd t)" and p: "prefix filterGuard t"
  from p obtain r where "t = filterGuard @ r" by (auto simp: prefix_def)
  then have "hd t = CHR ''#''" using filterGuard_head by (metis append_Cons list.sel(1))
  with sp filterGuard_head show False by simp
qed

lemma guardAhead_iff: "guardAhead t \<longleftrightarrow> prefix filterGuard (dropWhile isSpace t)"
proof
  assume "guardAhead t"
  then obtain j where j: "j \<le> length (takeWhile isSpace t)" and p: "prefix filterGuard (drop j t)"
    unfolding guardAhead_def list_ex_upt_Suc by blast
  have "\<not> j < length (takeWhile isSpace t)"
  proof
    assume lt: "j < length (takeWhile isSpace t)"
    then have jt: "j < length t" using length_takeWhile_le [of isSpace t] by simp
    have "isSpace (takeWhile isSpace t ! j)" using lt by (meson nth_mem set_takeWhileD)
    then have "isSpace (t ! j)" using lt by (simp add: takeWhile_nth)
    moreover have "drop j t \<noteq> []" "hd (drop j t) = t ! j" using jt by (simp_all add: hd_drop_conv_nth)
    ultimately show False using prefix_guard_space p by metis
  qed
  with j have "j = length (takeWhile isSpace t)" by simp
  with p show "prefix filterGuard (dropWhile isSpace t)" by (simp add: dropWhile_eq_drop)
next
  assume "prefix filterGuard (dropWhile isSpace t)"
  then have "prefix filterGuard (drop (length (takeWhile isSpace t)) t)"
    by (simp add: dropWhile_eq_drop)
  then show "guardAhead t" unfolding guardAhead_def list_ex_upt_Suc by blast
qed

lemma dropWhile_drop_leading:
  "k \<le> length (takeWhile P t) \<Longrightarrow> dropWhile P (drop k t) = dropWhile P t"
proof (induction t arbitrary: k)
  case Nil
  then show ?case by simp
next
  case (Cons a t)
  then show ?case by (cases k) (auto split: if_splits)
qed

lemma matchHere_iff:
  "matchHere s \<noteq> None \<longleftrightarrow>
     prefix filterAssignment s \<and>
     \<not> prefix filterGuard (dropWhile isSpace (drop (length filterAssignment) s))"
proof (cases "prefix filterAssignment s")
  case False
  then show ?thesis by (simp add: matchHere_def)
next
  case True
  let ?rest = "drop (length filterAssignment) s"
  let ?w = "length (takeWhile isSpace ?rest)"
  have same: "\<And>k. k \<le> ?w \<Longrightarrow> guardAhead (drop k ?rest) = guardAhead ?rest"
    unfolding guardAhead_iff by (simp only: dropWhile_drop_leading)
  have f: "find Q (rev [0..<Suc ?w]) \<noteq> None \<longleftrightarrow> (\<exists>k \<le> ?w. Q k)" for Q :: "nat \<Rightarrow> bool"
    unfolding find_not_None set_rev set_upt_Suc_le by blast
  have "(\<exists>k \<le> ?w. \<not> guardAhead (drop k ?rest)) \<longleftrightarrow> \<not> guardAhead ?rest"
  proof
    assume "\<exists>k \<le> ?w. \<not> guardAhead (drop k ?rest)"
    then obtain k where "k \<le> ?w" and "\<not> guardAhead (drop k ?rest)" by blast
    then show "\<not> guardAhead ?rest" using same [of k] by simp
  next
    assume "\<not> guardAhead ?rest"
    then have "\<not> guardAhead (drop 0 ?rest)" by simp
    then show "\<exists>k \<le> ?w. \<not> guardAhead (drop k ?rest)" by blast
  qed
  then have "find (\<lambda>k. \<not> guardAhead (drop k ?rest)) (rev [0..<Suc ?w]) \<noteq> None
          \<longleftrightarrow> \<not> guardAhead ?rest"
    by (simp only: f)
  then have "matchHere s \<noteq> None \<longleftrightarrow> \<not> guardAhead ?rest"
    using True by (simp only: matchHere_def Let_def if_True option.map_disc_iff)
  then show ?thesis using True by (simp add: guardAhead_iff)
qed

lemma execFrom_iff:
  "execFrom s i \<noteq> None \<longleftrightarrow> (\<exists>j \<le> length s. matchHere (drop j s) \<noteq> None)"
proof (induction s arbitrary: i)
  case Nil
  then show ?case by (simp split: option.splits)
next
  case (Cons c t)
  show ?case
  proof (cases "matchHere (c # t)")
    case (Some len)
    then have "matchHere (drop 0 (c # t)) \<noteq> None" by simp
    then have "\<exists>j \<le> length (c # t). matchHere (drop j (c # t)) \<noteq> None" by blast
    then show ?thesis using Some by simp
  next
    case None
    have "(\<exists>j \<le> length (c # t). matchHere (drop j (c # t)) \<noteq> None)
         \<longleftrightarrow> (\<exists>j \<le> length t. matchHere (drop j t) \<noteq> None)"
    proof
      assume "\<exists>j \<le> length (c # t). matchHere (drop j (c # t)) \<noteq> None"
      then obtain j where j: "j \<le> length (c # t)" "matchHere (drop j (c # t)) \<noteq> None" by blast
      with None obtain j' where "j = Suc j'" by (cases j) auto
      with j show "\<exists>j \<le> length t. matchHere (drop j t) \<noteq> None" by auto
    next
      assume "\<exists>j \<le> length t. matchHere (drop j t) \<noteq> None"
      then obtain j where "j \<le> length t" "matchHere (drop j t) \<noteq> None" by blast
      then have "Suc j \<le> length (c # t)" "matchHere (drop (Suc j) (c # t)) \<noteq> None" by simp_all
      then show "\<exists>j \<le> length (c # t). matchHere (drop j (c # t)) \<noteq> None" by blast
    qed
    then show ?thesis using None Cons.IH [of "Suc i"] by simp
  qed
qed

lemma unsafeTemplate_iff:
  "unsafeTemplate s \<longleftrightarrow> (\<exists>j \<le> length s. matchHere (drop j s) \<noteq> None)"
  by (simp only: unsafeTemplate_def list_ex_upt_Suc matchHere_iff drop_drop add.commute)

lemma regexTest_fresh: "fst (regexTest 0 s) \<longleftrightarrow> unsafeTemplate s"
  using execFrom_iff [of s 0]
  by (auto simp: regexTest_def unsafeTemplate_iff split: option.splits)

lemma regexTest_failure_resets: "\<not> fst (regexTest i s) \<Longrightarrow> snd (regexTest i s) = 0"
  by (auto simp: regexTest_def split: option.splits)

lemma regexTest_sound: "fst (regexTest i s) \<Longrightarrow> unsafeTemplate s"
proof -
  assume a: "fst (regexTest i s)"
  then have le: "i \<le> length s" and ex: "execFrom (drop i s) i \<noteq> None"
    by (auto simp: regexTest_def split: option.splits if_splits)
  from ex obtain j where j: "j \<le> length (drop i s)" "matchHere (drop j (drop i s)) \<noteq> None"
    unfolding execFrom_iff by blast
  then have "i + j \<le> length s" "matchHere (drop (i + j) s) \<noteq> None"
    using le by (simp_all add: add.commute)
  then show ?thesis unfolding unsafeTemplate_iff by blast
qed

text \<open>
  What the filter of the policy does compute: only unsafe templates, and at least one of
  them whenever there is one. The test \<open>resolversToSecure.length === 0\<close> of the policy
  is therefore the test whether the unsafe set is empty.
\<close>

lemma filterTest_sound: "set (filterTest i xs) \<subseteq> {x \<in> set xs. unsafeTemplate x}"
proof (induction xs arbitrary: i)
  case Nil
  then show ?case by simp
next
  case (Cons x xs)
  obtain b i' where r: "regexTest i x = (b, i')" by (cases "regexTest i x")
  show ?case
  proof (cases b)
    case True
    with r have "unsafeTemplate x" using regexTest_sound [of i x] by simp
    then show ?thesis using r True Cons.IH [of i'] by auto
  next
    case False
    then show ?thesis using r Cons.IH [of i'] by auto
  qed
qed

lemma filterTest_empty_iff: "filterTest 0 xs = [] \<longleftrightarrow> (\<forall>x \<in> set xs. \<not> unsafeTemplate x)"
proof (induction xs)
  case Nil
  then show ?case by simp
next
  case (Cons x xs)
  obtain b i' where r: "regexTest 0 x = (b, i')" by (cases "regexTest 0 x")
  show ?case
  proof (cases b)
    case True
    then have "unsafeTemplate x" using r regexTest_fresh [of x] by simp
    then show ?thesis using r True by auto
  next
    case False
    then have nu: "\<not> unsafeTemplate x" using r regexTest_fresh [of x] by simp
    have "i' = 0" using regexTest_failure_resets [of 0 x] r False by simp
    then show ?thesis using r False nu Cons.IH by simp
  qed
qed

lemma resolversToSecure_subset_nonempty:
  "set (resolversToSecure resolvers) \<subseteq> unsafeSetSpec resolvers
   \<and> (resolversToSecure resolvers = [] \<longleftrightarrow> unsafeSetSpec resolvers = {})"
proof -
  have u: "unsafeSetSpec resolvers = {x \<in> set (resolversToCheck resolvers). unsafeTemplate x}"
    by (auto simp: unsafeSetSpec_def resolversToCheck_def)
  show ?thesis
    unfolding u resolversToSecure_def
    using filterTest_sound [of 0 "resolversToCheck resolvers"]
      filterTest_empty_iff [of "resolversToCheck resolvers"]
    by auto
qed


text \<open>
  Claim C3 at the resolver map of the example: both list resolvers are checked and both
  are unsafe, yet the second is not in the result of the filter. The first test leaves
  \<open>lastIndex\<close> at the end of its match, 96, and the second test searches the second body
  from there on only, where the assignment no longer occurs; from index 0 it is found.
\<close>

theorem resolversToSecure_misses_second:
  "loadResolvers blogDir [] = Inr blogResolvers
   \<and> resolversToCheck blogResolvers = [filterAssignment, filterAssignment @ ''x'']
   \<and> unsafeSetSpec blogResolvers = {filterAssignment, filterAssignment @ ''x''}
   \<and> resolversToSecure blogResolvers = [filterAssignment]
   \<and> regexTest 0 filterAssignment = (True, 96)
   \<and> regexTest 96 (filterAssignment @ ''x'') = (False, 0)
   \<and> regexTest 0 (filterAssignment @ ''x'') = (True, 96)"
  by code_simp


lemma enhancement_early_return:
  assumes "w_flagValues w ''securityEnhancementNotification''"
    and "length (appSyncApiNames w) \<noteq> 1
         \<or> \<not> existsSync (w_fs w) (getResourceDirectoryPath c (appSyncApiNames w ! 0))"
  shows "notifySecurityEnhancement c w =
           (Returned (), setNotificationFlag c w ''securityEnhancementNotification'' False)"
  using assms by (auto simp: notifySecurityEnhancement_def Let_def)

lemma enhancement_not_triggered:
  assumes "w_flagValues w ''securityEnhancementNotification''"
    and "length (appSyncApiNames w) = 1"
    and "existsSync (w_fs w) (getResourceDirectoryPath c (appSyncApiNames w ! 0))"
    and "readProjectConfiguration c (w_fs w) (getResourceDirectoryPath c (appSyncApiNames w ! 0))
           = Inr schema"
    and "collectDirectivesByTypeNames c schema = Inr types"
    and "\<not> ((case w_meta w of None \<Rightarrow> False | Some m \<Rightarrow> m_auth m) \<and> notifyAuthWithKey types)"
  shows "notifySecurityEnhancement c w =
           (Returned (), setNotificationFlag c w ''securityEnhancementNotification'' False)"
  using assms by (auto simp: notifySecurityEnhancement_def Let_def)

text \<open>
  Claim C4, as amended: when \<open>notifySecurityEnhancement\<close> runs with its flag set on a
  project whose cli.json exists, every run that returns ends with the flag cleared, in
  cli.json and in the process-wide values. The run returns when the project has not
  exactly one AppSync API, when the resource directory is missing, and when the schema is
  read and the trigger condition fails.
\<close>

theorem securityEnhancement_clears_flag:
  assumes "w_flagValues w ''securityEnhancementNotification''"
    and "w_cliJSON w = Some config"
  shows "(\<forall>w'. notifySecurityEnhancement c w = (Returned (), w') \<longrightarrow>
            \<not> w_flagValues w' ''securityEnhancementNotification''
            \<and> (\<exists>cfg. w_cliJSON w' = Some cfg \<and> cfg ''securityEnhancementNotification'' = Some False))
       \<and> (length (appSyncApiNames w) \<noteq> 1
            \<or> \<not> existsSync (w_fs w) (getResourceDirectoryPath c (appSyncApiNames w ! 0))
          \<longrightarrow> fst (notifySecurityEnhancement c w) = Returned ()
              \<and> w_prompts (snd (notifySecurityEnhancement c w)) = w_prompts w)
       \<and> (\<forall>schema types.
            length (appSyncApiNames w) = 1
            \<and> existsSync (w_fs w) (getResourceDirectoryPath c (appSyncApiNames w ! 0))
            \<and> readProjectConfiguration c (w_fs w) (getResourceDirectoryPath c (appSyncApiNames w ! 0))
                 = Inr schema
            \<and> collectDirectivesByTypeNames c schema = Inr types
            \<and> \<not> ((case w_meta w of None \<Rightarrow> False | Some m \<Rightarrow> m_auth m) \<and> notifyAuthWithKey types)
          \<longrightarrow> fst (notifySecurityEnhancement c w) = Returned ()
              \<and> w_prompts (snd (notifySecurityEnhancement c w)) = w_prompts w)"
proof (intro conjI allI impI)
  fix w' assume "notifySecurityEnhancement c w = (Returned (), w')"
  from enhancement_returned_flag_off [OF this assms(2) assms(1)]
  show "\<not> w_flagValues w' ''securityEnhancementNotification''"
    and "\<exists>cfg. w_cliJSON w' = Some cfg \<and> cfg ''securityEnhancementNotification'' = Some False"
    by blast+
next
  assume a: "length (appSyncApiNames w) \<noteq> 1
            \<or> \<not> existsSync (w_fs w) (getResourceDirectoryPath c (appSyncApiNames w ! 0))"
  show "fst (notifySecurityEnhancement c w) = Returned ()"
    and "w_prompts (snd (notifySecurityEnhancement c w)) = w_prompts w"
    by (simp_all add: enhancement_early_return [OF assms(1) a])
next
  fix schema types
  assume a: "length (appSyncApiNames w) = 1
            \<and> existsSync (w_fs w) (getResourceDirectoryPath c (appSyncApiNames w ! 0))
            \<and> readProjectConfiguration c (w_fs w) (getResourceDirectoryPath c (appSyncApiNames w ! 0))
                 = Inr schema
            \<and> collectDirectivesByTypeNames c schema = Inr types
            \<and> \<not> ((case w_meta w of None \<Rightarrow> False | Some m \<Rightarrow> m_auth m) \<and> notifyAuthWithKey types)"
  then have e: "notifySecurityEnhancement c w =
           (Returned (), setNotificationFlag c w ''securityEnhancementNotification'' False)"
    using enhancement_not_triggered [OF assms(1), of c schema types] by blast
  show "fst (notifySecurityEnhancement c w) = Returned ()"
    and "w_prompts (snd (notifySecurityEnhancement c w)) = w_prompts w"
    by (simp_all add: e)
qed

theorem securityEnhancement_clears_flag_witness:
  "w_flagValues (exampleWorld (Some Map.empty)) ''securityEnhancementNotification''
   \<and> w_cliJSON (exampleWorld (Some Map.empty)) = Some Map.empty
   \<and> length (appSyncApiNames (exampleWorld (Some Map.empty))) = 2
   \<and> fst (notifySecurityEnhancement (exampleCollaborators True) (exampleWorld (Some Map.empty)))
       = Returned ()
   \<and> w_prompts (snd (notifySecurityEnhancement (exampleCollaborators True)
         (exampleWorld (Some Map.empty)))) = 0
   \<and> \<not> w_flagValues (snd (notifySecurityEnhancement (exampleCollaborators True)
         (exampleWorld (Some Map.empty)))) ''securityEnhancementNotification''"
proof -
  let ?w = "exampleWorld (Some Map.empty)" and ?c = "exampleCollaborators True"
  have f: "w_flagValues ?w ''securityEnhancementNotification''"
    and cfg: "w_cliJSON ?w = Some Map.empty"
    and p0: "w_prompts ?w = 0"
    by (simp_all add: exampleWorld_def)
  have two: "length (appSyncApiNames ?w) = 2"
    by (simp add: appSyncApiNames_def exampleWorld_def)
  note t = securityEnhancement_clears_flag [OF f cfg, of ?c]
  from t two have r: "fst (notifySecurityEnhancement ?c ?w) = Returned ()"
    and p: "w_prompts (snd (notifySecurityEnhancement ?c ?w)) = w_prompts ?w"
    by simp_all
  from r have "notifySecurityEnhancement ?c ?w = (Returned (), snd (notifySecurityEnhancement ?c ?w))"
    by (metis prod.collapse)
  with t have "\<not> w_flagValues (snd (notifySecurityEnhancement ?c ?w)) ''securityEnhancementNotification''"
    by blast
  with f cfg two r p p0 show ?thesis by simp
qed

text \<open>
  Claim C4 as stated fails on the example project without a cli.json:
  \<open>setNotificationFlag\<close> finds no config and writes nothing, so the run returns with the
  flag still set.
\<close>

theorem securityEnhancement_flag_survives:
  "w_flagValues (exampleWorld None) ''securityEnhancementNotification''
   \<and> fst (notifySecurityEnhancement (exampleCollaborators True) (exampleWorld None)) = Returned ()
   \<and> w_flagValues (snd (notifySecurityEnhancement (exampleCollaborators True) (exampleWorld None)))
       ''securityEnhancementNotification''"
  by code_simp


lemma getApiResourceDir_first:
  "appSyncApiNames w = name # others \<Longrightarrow>
   existsSync (w_fs w) (getResourceDirectoryPath c name) \<Longrightarrow>
   getApiResourceDir c w = Some (getResourceDirectoryPath c name)"
  by (simp add: getApiResourceDir_def containsGraphQLApi_def Let_def)

lemma getApiResourceDir_None:
  "getApiResourceDir c w = None \<longleftrightarrow>
     appSyncApiNames w = []
     \<or> \<not> existsSync (w_fs w) (getResourceDirectoryPath c (appSyncApiNames w ! 0))"
  by (auto simp: getApiResourceDir_def containsGraphQLApi_def Let_def)

lemma field_read_fails:
  "w_flagValues w ''showfieldauthnotification'' \<Longrightarrow> getApiResourceDir c w = Some dir \<Longrightarrow>
   readProjectConfiguration c (w_fs w) dir = Inl e \<Longrightarrow>
   notifyFieldAuthSecurityChange c w = (Threw e, w)"
  by (simp add: notifyFieldAuthSecurityChange_def)

lemma list_read_fails:
  "getApiResourceDir c w = Some dir \<Longrightarrow>
   readProjectConfiguration c (w_fs w) dir = Inl e \<Longrightarrow>
   notifyListQuerySecurityChange c w = (Threw e, w)"
  by (simp add: notifyListQuerySecurityChange_def)

text \<open>
  Claim C10: let the metadata list one or more AppSync APIs, \<open>name\<close> the first of them in
  enumeration order and \<open>others\<close> the rest, and let the resource directory of \<open>name\<close>
  exist. Then \<open>getApiResourceDir\<close> gives that directory, whatever the others are, and
  \<open>notifyFieldAuthSecurityChange\<close> (with its flag set) and
  \<open>notifyListQuerySecurityChange\<close> go on with it: a failure to read its schema is the
  failure of the policy; when its schema (and, for the list policy, its resolvers) meet
  the trigger condition, the question is asked and \<open>modifyGraphQLSchema\<close> is called; and
  after a yes the policy returns true with the tree that \<open>modifyGraphQLSchema\<close> makes of
  that directory. \<open>notifySecurityEnhancement\<close>, with its flag set, asks nothing and only
  writes its flag as soon as there is a second AppSync API.
\<close>

theorem first_api_dir_is_used:
  assumes "appSyncApiNames w = name # others"
    and "existsSync (w_fs w) (getResourceDirectoryPath c name)"
  shows "getApiResourceDir c w = Some (getResourceDirectoryPath c name)
       \<and> (w_flagValues w ''showfieldauthnotification''
            \<and> readProjectConfiguration c (w_fs w) (getResourceDirectoryPath c name) = Inl e \<longrightarrow>
          notifyFieldAuthSecurityChange c w = (Threw e, w))
       \<and> (w_flagValues w ''showfieldauthnotification''
            \<and> readProjectConfiguration c (w_fs w) (getResourceDirectoryPath c name) = Inr schema
            \<and> collectDirectivesByType c schema = Inr directiveMap
            \<and> parse c schema = Inr doc
            \<and> displayAuthNotification (w_transformerversion w) directiveMap
                 (hasFieldAuthDirectives doc) \<longrightarrow>
          w_prompts (snd (notifyFieldAuthSecurityChange c w)) = Suc (w_prompts w)
          \<and> w_touches (snd (notifyFieldAuthSecurityChange c w)) = Suc (w_touches w)
          \<and> (yesOrNo c (w_prompts w) \<longrightarrow>
               notifyFieldAuthSecurityChange c w =
                 (Returned True,
                  setNotificationFlag c
                    (w\<lparr>w_prompts := Suc (w_prompts w), w_touches := Suc (w_touches w),
                       w_fs := (case modifyGraphQLSchema (w_fs w) (getResourceDirectoryPath c name) of
                                  Inl e \<Rightarrow> w_fs w | Inr fs' \<Rightarrow> fs')\<rparr>)
                    ''showfieldauthnotification'' False)))
       \<and> (readProjectConfiguration c (w_fs w) (getResourceDirectoryPath c name) = Inl e \<longrightarrow>
          notifyListQuerySecurityChange c w = (Threw e, w))
       \<and> (readProjectConfiguration c (w_fs w) (getResourceDirectoryPath c name) = Inr schema
            \<and> loadResolvers (w_fs w) (getResourceDirectoryPath c name) = Inr resolvers
            \<and> resolversToSecure resolvers \<noteq> []
            \<and> parse c schema = Inr doc
            \<and> hasV2AuthDirectives (w_transformerversion w) doc \<longrightarrow>
          w_prompts (snd (notifyListQuerySecurityChange c w)) = Suc (w_prompts w)
          \<and> w_touches (snd (notifyListQuerySecurityChange c w)) = Suc (w_touches w)
          \<and> (yesOrNo c (w_prompts w) \<longrightarrow>
               notifyListQuerySecurityChange c w =
                 (Returned True,
                  w\<lparr>w_prompts := Suc (w_prompts w), w_touches := Suc (w_touches w),
                    w_fs := (case modifyGraphQLSchema (w_fs w) (getResourceDirectoryPath c name) of
                               Inl e \<Rightarrow> w_fs w | Inr fs' \<Rightarrow> fs')\<rparr>)))
       \<and> (others \<noteq> [] \<and> w_flagValues w ''securityEnhancementNotification'' \<longrightarrow>
          notifySecurityEnhancement c w =
            (Returned (), setNotificationFlag c w ''securityEnhancementNotification'' False))"
proof -
  note d = getApiResourceDir_first [OF assms]
  have f: "w_flagValues w ''showfieldauthnotification''
            \<and> readProjectConfiguration c (w_fs w) (getResourceDirectoryPath c name) = Inr schema
            \<and> collectDirectivesByType c schema = Inr directiveMap
            \<and> parse c schema = Inr doc
            \<and> displayAuthNotification (w_transformerversion w) directiveMap
                 (hasFieldAuthDirectives doc) \<longrightarrow>
          w_prompts (snd (notifyFieldAuthSecurityChange c w)) = Suc (w_prompts w)
          \<and> w_touches (snd (notifyFieldAuthSecurityChange c w)) = Suc (w_touches w)
          \<and> (yesOrNo c (w_prompts w) \<longrightarrow>
               notifyFieldAuthSecurityChange c w =
                 (Returned True,
                  setNotificationFlag c
                    (w\<lparr>w_prompts := Suc (w_prompts w), w_touches := Suc (w_touches w),
                       w_fs := (case modifyGraphQLSchema (w_fs w) (getResourceDirectoryPath c name) of
                                  Inl e \<Rightarrow> w_fs w | Inr fs' \<Rightarrow> fs')\<rparr>)
                    ''showfieldauthnotification'' False))"
  proof
    assume a: "w_flagValues w ''showfieldauthnotification''
            \<and> readProjectConfiguration c (w_fs w) (getResourceDirectoryPath c name) = Inr schema
            \<and> collectDirectivesByType c schema = Inr directiveMap
            \<and> parse c schema = Inr doc
            \<and> displayAuthNotification (w_transformerversion w) directiveMap
                 (hasFieldAuthDirectives doc)"
    have t: "notifyFieldAuthSecurityChange c w =
     (if yesOrNo c (w_prompts w) then
        (Returned True,
         setNotificationFlag c
           (w\<lparr>w_prompts := Suc (w_prompts w), w_touches := Suc (w_touches w),
              w_fs := (case modifyGraphQLSchema (w_fs w) (getResourceDirectoryPath c name) of
                         Inl e \<Rightarrow> w_fs w | Inr fs' \<Rightarrow> fs')\<rparr>)
           ''showfieldauthnotification'' False)
      else
        (Exited 0,
         w\<lparr>w_prompts := Suc (w_prompts w), w_emitted := Suc (w_emitted w),
           w_touches := Suc (w_touches w),
           w_fs := modifyGraphQLSchemaBeforeExit c (w_fs w) (getResourceDirectoryPath c name)\<rparr>))"
    proof -
      from a have a1: "w_flagValues w ''showfieldauthnotification''"
        and a2: "readProjectConfiguration c (w_fs w) (getResourceDirectoryPath c name) = Inr schema"
        and a3: "collectDirectivesByType c schema = Inr directiveMap"
        and a4: "parse c schema = Inr doc"
        and a5: "displayAuthNotification (w_transformerversion w) directiveMap
                   (hasFieldAuthDirectives doc)"
        by simp_all
      show ?thesis by (rule field_triggered [OF a1 d a2 a3 a4 a5])
    qed
    show "w_prompts (snd (notifyFieldAuthSecurityChange c w)) = Suc (w_prompts w)
          \<and> w_touches (snd (notifyFieldAuthSecurityChange c w)) = Suc (w_touches w)
          \<and> (yesOrNo c (w_prompts w) \<longrightarrow>
               notifyFieldAuthSecurityChange c w =
                 (Returned True,
                  setNotificationFlag c
                    (w\<lparr>w_prompts := Suc (w_prompts w), w_touches := Suc (w_touches w),
                       w_fs := (case modifyGraphQLSchema (w_fs w) (getResourceDirectoryPath c name) of
                                  Inl e \<Rightarrow> w_fs w | Inr fs' \<Rightarrow> fs')\<rparr>)
                    ''showfieldauthnotification'' False))"
      unfolding t by simp
  qed
  have l: "readProjectConfiguration c (w_fs w) (getResourceDirectoryPath c name) = Inr schema
            \<and> loadResolvers (w_fs w) (getResourceDirectoryPath c name) = Inr resolvers
            \<and> resolversToSecure resolvers \<noteq> []
            \<and> parse c schema = Inr doc
            \<and> hasV2AuthDirectives (w_transformerversion w) doc \<longrightarrow>
          w_prompts (snd (notifyListQuerySecurityChange c w)) = Suc (w_prompts w)
          \<and> w_touches (snd (notifyListQuerySecurityChange c w)) = Suc (w_touches w)
          \<and> (yesOrNo c (w_prompts w) \<longrightarrow>
               notifyListQuerySecurityChange c w =
                 (Returned True,
                  w\<lparr>w_prompts := Suc (w_prompts w), w_touches := Suc (w_touches w),
                    w_fs := (case modifyGraphQLSchema (w_fs w) (getResourceDirectoryPath c name) of
                               Inl e \<Rightarrow> w_fs w | Inr fs' \<Rightarrow> fs')\<rparr>))"
  proof
    assume a: "readProjectConfiguration c (w_fs w) (getResourceDirectoryPath c name) = Inr schema
            \<and> loadResolvers (w_fs w) (getResourceDirectoryPath c name) = Inr resolvers
            \<and> resolversToSecure resolvers \<noteq> []
            \<and> parse c schema = Inr doc
            \<and> hasV2AuthDirectives (w_transformerversion w) doc"
    have t: "notifyListQuerySecurityChange c w =
     (if yesOrNo c (w_prompts w) then
        (Returned True,
         w\<lparr>w_prompts := Suc (w_prompts w), w_touches := Suc (w_touches w),
           w_fs := (case modifyGraphQLSchema (w_fs w) (getResourceDirectoryPath c name) of
                      Inl e \<Rightarrow> w_fs w | Inr fs' \<Rightarrow> fs')\<rparr>)
      else
        (Exited 0,
         w\<lparr>w_prompts := Suc (w_prompts w), w_emitted := Suc (w_emitted w),
           w_touches := Suc (w_touches w),
           w_fs := modifyGraphQLSchemaBeforeExit c (w_fs w) (getResourceDirectoryPath c name)\<rparr>))"
    proof -
      from a have a1: "readProjectConfiguration c (w_fs w) (getResourceDirectoryPath c name) = Inr schema"
        and a2: "loadResolvers (w_fs w) (getResourceDirectoryPath c name) = Inr resolvers"
        and a3: "resolversToSecure resolvers \<noteq> []"
        and a4: "parse c schema = Inr doc"
        and a5: "hasV2AuthDirectives (w_transformerversion w) doc"
        by simp_all
      show ?thesis by (rule list_triggered [OF d a1 a2 a3 a4 a5])
    qed
    show "w_prompts (snd (notifyListQuerySecurityChange c w)) = Suc (w_prompts w)
          \<and> w_touches (snd (notifyListQuerySecurityChange c w)) = Suc (w_touches w)
          \<and> (yesOrNo c (w_prompts w) \<longrightarrow>
               notifyListQuerySecurityChange c w =
                 (Returned True,
                  w\<lparr>w_prompts := Suc (w_prompts w), w_touches := Suc (w_touches w),
                    w_fs := (case modifyGraphQLSchema (w_fs w) (getResourceDirectoryPath c name) of
                               Inl e \<Rightarrow> w_fs w | Inr fs' \<Rightarrow> fs')\<rparr>))"
      unfolding t by simp
  qed
  have "others \<noteq> [] \<Longrightarrow> length (appSyncApiNames w) \<noteq> 1" using assms(1) by simp
  then have s: "others \<noteq> [] \<and> w_flagValues w ''securityEnhancementNotification'' \<longrightarrow>
          notifySecurityEnhancement c w =
            (Returned (), setNotificationFlag c w ''securityEnhancementNotification'' False)"
    using enhancement_early_return [of w c] by blast
  show ?thesis
    using d f l s field_read_fails [OF _ d, of e] list_read_fails [OF d, of e]
    by (intro conjI impI) blast+
qed

theorem first_api_dir_is_used_witness:
  "appSyncApiNames (exampleWorld None) = ''blog'' # [''shop'']
   \<and> existsSync (w_fs (exampleWorld None))
        (getResourceDirectoryPath (exampleCollaborators True) ''blog'')
   \<and> getApiResourceDir (exampleCollaborators True) (exampleWorld None)
       = Some [''amplify'', ''backend'', ''api'', ''blog'']
   \<and> fst (notifyFieldAuthSecurityChange (exampleCollaborators True) (exampleWorld None))
       = Returned True
   \<and> w_prompts (snd (notifyFieldAuthSecurityChange (exampleCollaborators True) (exampleWorld None)))
       = Suc (w_prompts (exampleWorld None))
   \<and> readFile (w_fs (snd (notifyFieldAuthSecurityChange (exampleCollaborators True) (exampleWorld None))))
        [''amplify'', ''backend'', ''api'', ''blog'', ''schema.graphql'']
       = Inr ''type Post @model @auth(rules: [{allow: owner}]) { id: ID! } ''
   \<and> fst (notifyListQuerySecurityChange (exampleCollaborators True) (exampleWorld None))
       = Returned True
   \<and> w_prompts (snd (notifyListQuerySecurityChange (exampleCollaborators True) (exampleWorld None)))
       = Suc (w_prompts (exampleWorld None))
   \<and> readFile (w_fs (snd (notifyListQuerySecurityChange (exampleCollaborators True) (exampleWorld None))))
        [''amplify'', ''backend'', ''api'', ''blog'', ''schema.graphql'']
       = Inr ''type Post @model @auth(rules: [{allow: owner}]) { id: ID! } ''
   \<and> fst (notifyListQuerySecurityChange
          ((exampleCollaborators True)\<lparr>readProjectConfiguration := \<lambda>fs p. Inl ENOENT\<rparr>)
          (exampleWorld None)) = Threw ENOENT
   \<and> [''shop''] \<noteq> []
   \<and> w_flagValues (exampleWorld None) ''securityEnhancementNotification''
   \<and> fst (notifySecurityEnhancement (exampleCollaborators True) (exampleWorld None)) = Returned ()
   \<and> w_prompts (snd (notifySecurityEnhancement (exampleCollaborators True) (exampleWorld None))) = 0"
proof -
  let ?w = "exampleWorld None" and ?c = "exampleCollaborators True"
  let ?c' = "(exampleCollaborators True)\<lparr>readProjectConfiguration := \<lambda>fs p. Inl ENOENT\<rparr>"
  let ?dir = "[''amplify'', ''backend'', ''api'', ''blog'']"
  have n: "appSyncApiNames ?w = ''blog'' # [''shop'']"
    by (simp add: appSyncApiNames_def exampleWorld_def)
  have e: "existsSync (w_fs ?w) (getResourceDirectoryPath ?c ''blog'')"
    by code_simp
  have e': "existsSync (w_fs ?w) (getResourceDirectoryPath ?c' ''blog'')"
    by code_simp
  have g: "getResourceDirectoryPath ?c ''blog'' = ?dir" "getResourceDirectoryPath ?c' ''blog'' = ?dir"
    by (simp_all add: exampleCollaborators_def)
  have y: "yesOrNo ?c (w_prompts ?w)" by (simp add: exampleCollaborators_def)
  have ff: "w_flagValues ?w ''showfieldauthnotification''"
    and fe: "w_flagValues ?w ''securityEnhancementNotification''"
    and p0: "w_prompts ?w = 0" and fs0: "w_fs ?w = exampleTree"
    and v: "w_transformerversion ?w = 2"
    by (simp_all add: exampleWorld_def)
  have rd: "readProjectConfiguration ?c (w_fs ?w) ?dir = Inr ''type Post''"
    and cd: "collectDirectivesByType ?c ''type Post'' = Inr [(''Post'', postDirectives)]"
    and pd: "parse ?c ''type Post'' = Inr postDocument"
    by (simp_all add: exampleCollaborators_def)
  have rd': "readProjectConfiguration ?c' (w_fs ?w) ?dir = Inl ENOENT"
    by (simp add: exampleCollaborators_def)
  have da: "displayAuthNotification (w_transformerversion ?w) [(''Post'', postDirectives)]
      (hasFieldAuthDirectives postDocument)"
    unfolding v by code_simp
  have lr: "loadResolvers (w_fs ?w) ?dir = Inr blogResolvers"
    unfolding fs0 by code_simp
  have rs: "resolversToSecure blogResolvers \<noteq> []" by code_simp
  have hv: "hasV2AuthDirectives (w_transformerversion ?w) postDocument"
    unfolding v by code_simp
  have m: "readFile (case modifyGraphQLSchema (w_fs ?w) ?dir of
               Inl e \<Rightarrow> w_fs ?w | Inr fs' \<Rightarrow> fs')
             [''amplify'', ''backend'', ''api'', ''blog'', ''schema.graphql'']
           = Inr ''type Post @model @auth(rules: [{allow: owner}]) { id: ID! } ''"
    by code_simp
  note t = first_api_dir_is_used [OF n e, of ENOENT "''type Post''" "[(''Post'', postDirectives)]"
      postDocument blogResolvers]
  note t' = first_api_dir_is_used [OF n e', of ENOENT]
  from t g have t1: "getApiResourceDir ?c ?w = Some ?dir" by simp
  from t g ff rd cd pd da y have t2: "notifyFieldAuthSecurityChange ?c ?w =
      (Returned True,
       setNotificationFlag ?c
         (?w\<lparr>w_prompts := Suc (w_prompts ?w), w_touches := Suc (w_touches ?w),
             w_fs := (case modifyGraphQLSchema (w_fs ?w) ?dir of
                        Inl e \<Rightarrow> w_fs ?w | Inr fs' \<Rightarrow> fs')\<rparr>)
         ''showfieldauthnotification'' False)"
    by simp
  from t g rd lr rs pd hv y have t3: "notifyListQuerySecurityChange ?c ?w =
      (Returned True,
       ?w\<lparr>w_prompts := Suc (w_prompts ?w), w_touches := Suc (w_touches ?w),
          w_fs := (case modifyGraphQLSchema (w_fs ?w) ?dir of
                     Inl e \<Rightarrow> w_fs ?w | Inr fs' \<Rightarrow> fs')\<rparr>)"
    by simp
  from t' g rd' have t4: "notifyListQuerySecurityChange ?c' ?w = (Threw ENOENT, ?w)" by simp
  from t fe have t5: "notifySecurityEnhancement ?c ?w =
      (Returned (), setNotificationFlag ?c ?w ''securityEnhancementNotification'' False)"
    by simp
  show ?thesis
    unfolding t2 t3 t4 t5 using n e t1 m fe p0 by simp
qed


end
